theory Spec2Isabelle
  imports Main
begin

section \<open>Values exchanged with the collaborators\<close>

text \<open>
  Python strings are modelled as \<^typ>\<open>string\<close>, each character read as one code point
  (the code points below 256). The exceptions of \<^verbatim>\<open>main.py\<close> are values of
  \<open>error\<close>: the one the file raises itself (\<^verbatim>\<open>RuntimeError("Not connected to MCP server")\<close>),
  the ones the interpreter raises for the file's own expressions, and \<open>External\<close>
  for whatever a collaborator (chat API, transport, session) raises.
\<close>

datatype error =
    NotConnected
  | KeyError string
  | IndexError
  | AttributeError
  | TypeError
  | JSONDecodeError
  | FormatError
  | External string

text \<open>
  What \<^verbatim>\<open>json.loads\<close> returns. A float is kept as its literal: nothing in the program
  computes with one.
\<close>

datatype json =
    JNull
  | JBool bool
  | JInt int
  | JFloat string
  | JString string
  | JArray "json list"
  | JObject "(string \<times> json) list"

type_synonym kwargs = "(string \<times> json) list"

text \<open>\<^verbatim>\<open>f(**arguments)\<close>: only a mapping can be unpacked, anything else is a TypeError.\<close>

fun as_kwargs :: "json \<Rightarrow> error + kwargs" where
  "as_kwargs (JObject kvs) = Inr kvs"
| "as_kwargs _ = Inl TypeError"

subsection \<open>\<^verbatim>\<open>json.dumps\<close> of a string\<close>

text \<open>
  \<^verbatim>\<open>json.dumps(s)\<close> for a \<^verbatim>\<open>str\<close>, with the default \<^verbatim>\<open>ensure_ascii=True\<close>: the text
  between double quotes, with the quote, the backslash and every code point outside
  \<^verbatim>\<open>' '..'~'\<close> escaped.
\<close>

definition hex_digit :: "nat \<Rightarrow> char" where
  "hex_digit n = ''0123456789abcdef'' ! (n mod 16)"

definition escape_char :: "char \<Rightarrow> string" where
  "escape_char c =
     (if c = CHR 0x22 then [CHR 0x5C, CHR 0x22]
      else if c = CHR 0x5C then [CHR 0x5C, CHR 0x5C]
      else if c = CHR 0x0A then [CHR 0x5C, CHR ''n'']
      else if c = CHR 0x0D then [CHR 0x5C, CHR ''r'']
      else if c = CHR 0x09 then [CHR 0x5C, CHR ''t'']
      else if c = CHR 0x08 then [CHR 0x5C, CHR ''b'']
      else if c = CHR 0x0C then [CHR 0x5C, CHR ''f'']
      else if (of_char c :: nat) < 0x20 \<or> 0x7E < (of_char c :: nat)
        then [CHR 0x5C, CHR ''u'', CHR ''0'', CHR ''0'',
              hex_digit (of_char c div 16), hex_digit (of_char c mod 16)]
      else [c])"

definition json_dumps :: "string \<Rightarrow> string" where
  "json_dumps s = CHR 0x22 # concat (map escape_char s) @ [CHR 0x22]"

subsection \<open>Messages, requests and responses of the chat API\<close>

record tool_call =
  tc_id :: string
  tc_name :: string
  tc_arguments :: string

text \<open>\<^verbatim>\<open>response.choices[i].message\<close>: both attributes are optional.\<close>

record chat_message =
  content :: "string option"
  tool_calls :: "tool_call list option"

text \<open>
  The elements of the \<^verbatim>\<open>messages\<close> list: the four dict literals of \<^verbatim>\<open>agent_loop\<close>
  (roles system, user, tool, assistant) and the response's message object, which the
  loop puts into the list as it is.
\<close>

datatype message =
    System string
  | User string
  | ModelMessage chat_message
  | Tool string string string
  | Assistant "string option"

record function_schema =
  fn_name :: string
  fn_description :: "string option"
  fn_parameters :: json

text \<open>\<^verbatim>\<open>{"type": "function", "function": {...}}\<close>\<close>

record schema =
  schema_type :: string
  schema_function :: function_schema

record chat_request =
  req_model :: string
  req_messages :: "message list"
  req_tools :: "schema list option"
  req_max_tokens :: "nat option"
  req_temperature :: "int option"

text \<open>A response, as the list of the messages of its choices.\<close>

type_synonym chat_completion = "chat_message list"

section \<open>Dictionaries and the tool registry\<close>

text \<open>
  A Python dict keeps insertion order, and assigning to a key that is present keeps
  the key's place.
\<close>

type_synonym ('k, 'v) dict = "('k \<times> 'v) list"

fun dict_set :: "('k, 'v) dict \<Rightarrow> 'k \<Rightarrow> 'v \<Rightarrow> ('k, 'v) dict" where
  "dict_set [] k v = [(k, v)]"
| "dict_set ((k', v') # d) k v =
     (if k' = k then (k, v) # d else (k', v') # dict_set d k v)"

definition dict_get :: "('k, 'v) dict \<Rightarrow> 'k \<Rightarrow> 'v option" where
  "dict_get d k = map_of d k"

definition dict_values :: "('k, 'v) dict \<Rightarrow> 'v list" where
  "dict_values d = map snd d"

text \<open>
  An entry of \<^verbatim>\<open>tools\<close>. The callable takes the keyword arguments and acts on the
  state \<open>'s\<close> of the collaborators; it returns text or raises.
\<close>

record 's tool =
  t_name :: string
  t_callable :: "kwargs \<Rightarrow> 's \<Rightarrow> (error + string) \<times> 's"
  t_schema :: schema

section \<open>The environment of the loop\<close>

text \<open>
  The configuration constants and the collaborators of \<^verbatim>\<open>agent_loop\<close>, which are not
  part of the file: \<^verbatim>\<open>MODEL\<close>, \<^verbatim>\<open>SYSTEM_PROMPT.format(tools=...)\<close> as a function of the
  text put in, \<^verbatim>\<open>client.chat.completions.create\<close> and \<^verbatim>\<open>json.loads\<close>.
\<close>

record 's env =
  MODEL :: string
  SYSTEM_PROMPT_format :: "string \<Rightarrow> error + string"
  chat_create :: "chat_request \<Rightarrow> 's \<Rightarrow> (error + chat_completion) \<times> 's"
  json_loads :: "string \<Rightarrow> error + json"

text \<open>
  The calls the loop makes to its collaborators, in order, each with what came back:
  a chat-completion request, and the call of the callable registered under a name.
  No function of the program reads this list; it is kept to count calls.
\<close>

datatype call_event =
    ChatCreate chat_request "error + chat_completion"
  | Invoke string kwargs "error + string"

text \<open>
  The state: the collaborators' state, the list objects (by address, with the next
  free address) and the calls made so far.
\<close>

type_synonym addr = nat

record 's machine =
  ext :: 's
  heap :: "addr \<Rightarrow> message list"
  next_addr :: addr
  calls :: "call_event list"

definition alloc :: "message list \<Rightarrow> 's machine \<Rightarrow> addr \<times> 's machine" where
  "alloc xs st =
     (next_addr st,
      st\<lparr>heap := (heap st)(next_addr st := xs), next_addr := Suc (next_addr st)\<rparr>)"

definition extend_at :: "addr \<Rightarrow> message list \<Rightarrow> 's machine \<Rightarrow> 's machine" where
  "extend_at a xs st = st\<lparr>heap := (heap st)(a := heap st a @ xs)\<rparr>"

definition record_call :: "call_event \<Rightarrow> 's machine \<Rightarrow> 's machine" where
  "record_call ev st = st\<lparr>calls := calls st @ [ev]\<rparr>"

section \<open>\<^verbatim>\<open>agent_loop\<close>\<close>

text \<open>\<^verbatim>\<open>str(x)\<close> inside an f-string, for an optional string.\<close>

definition py_str :: "string option \<Rightarrow> string" where
  "py_str x = (case x of None \<Rightarrow> ''None'' | Some s \<Rightarrow> s)"

fun join :: "string \<Rightarrow> string list \<Rightarrow> string" where
  "join sep [] = []"
| "join sep [x] = x"
| "join sep (x # y # ys) = x @ sep @ join sep (y # ys)"

text \<open>\<^verbatim>\<open>f"{t['name']}: {t['schema']['function']['description']}"\<close>\<close>

definition tool_line :: "'s tool \<Rightarrow> string" where
  "tool_line t = t_name t @ '': '' @ py_str (fn_description (schema_function (t_schema t)))"

definition tools_text :: "(string, 's tool) dict \<Rightarrow> string" where
  "tools_text tools = join ''\<newline>- '' (map tool_line (dict_values tools))"

text \<open>
  \<^verbatim>\<open>messages = messages or [...]\<close>: a list that is \<^verbatim>\<open>None\<close> or empty is replaced by a
  new list holding the system message; the prompt is formatted only then.
\<close>

definition fresh_history :: "'s env \<Rightarrow> (string, 's tool) dict \<Rightarrow> 's machine \<Rightarrow>
    (error + addr) \<times> 's machine" where
  "fresh_history env tools st =
     (case SYSTEM_PROMPT_format env (tools_text tools) of
        Inl e \<Rightarrow> (Inl e, st)
      | Inr p \<Rightarrow> (case alloc [System p] st of (a, st') \<Rightarrow> (Inr a, st')))"

definition seed :: "'s env \<Rightarrow> (string, 's tool) dict \<Rightarrow> addr option \<Rightarrow> 's machine \<Rightarrow>
    (error + addr) \<times> 's machine" where
  "seed env tools messages st =
     (case messages of
        None \<Rightarrow> fresh_history env tools st
      | Some a \<Rightarrow> (if heap st a \<noteq> [] then (Inr a, st) else fresh_history env tools st))"

text \<open>\<^verbatim>\<open>xs[0]\<close>\<close>

definition first :: "'a list \<Rightarrow> error + 'a" where
  "first xs = (case xs of [] \<Rightarrow> Inl IndexError | x # _ \<Rightarrow> Inr x)"

text \<open>The first request: the manifest is \<^verbatim>\<open>None\<close> for an empty dict.\<close>

definition first_request :: "'s env \<Rightarrow> (string, 's tool) dict \<Rightarrow> message list \<Rightarrow> chat_request" where
  "first_request env tools msgs =
     \<lparr>req_model = MODEL env, req_messages = msgs,
      req_tools = (if tools \<noteq> [] then Some (map t_schema (dict_values tools)) else None),
      req_max_tokens = Some 4096, req_temperature = Some 0\<rparr>"

definition second_request :: "'s env \<Rightarrow> message list \<Rightarrow> chat_request" where
  "second_request env msgs =
     \<lparr>req_model = MODEL env, req_messages = msgs, req_tools = None,
      req_max_tokens = None, req_temperature = None\<rparr>"

definition create :: "'s env \<Rightarrow> chat_request \<Rightarrow> 's machine \<Rightarrow>
    (error + chat_completion) \<times> 's machine" where
  "create env req st =
     (case chat_create env req (ext st) of
        (r, x) \<Rightarrow> (r, record_call (ChatCreate req r) (st\<lparr>ext := x\<rparr>)))"

text \<open>
  The body of the \<^verbatim>\<open>for\<close> loop over the tool calls (lines 82 to 88), for the message
  \<open>msg\<close> of the first response and the list at \<open>a\<close>. It stops at the first exception.
\<close>

fun run_tool_calls :: "'s env \<Rightarrow> (string, 's tool) dict \<Rightarrow> chat_message \<Rightarrow> addr \<Rightarrow>
    tool_call list \<Rightarrow> 's machine \<Rightarrow> (error + unit) \<times> 's machine" where
  "run_tool_calls env tools msg a [] st = (Inr (), st)"
| "run_tool_calls env tools msg a (tc # tcs) st =
     (case json_loads env (tc_arguments tc) of
        Inl e \<Rightarrow> (Inl e, st)
      | Inr arguments \<Rightarrow>
          (case dict_get tools (tc_name tc) of
             None \<Rightarrow> (Inl (KeyError (tc_name tc)), st)
           | Some t \<Rightarrow>
               (case as_kwargs arguments of
                  Inl e \<Rightarrow> (Inl e, st)
                | Inr kw \<Rightarrow>
                    (case t_callable t kw (ext st) of
                       (Inl e, x) \<Rightarrow>
                         (Inl e, record_call (Invoke (tc_name tc) kw (Inl e)) (st\<lparr>ext := x\<rparr>))
                     | (Inr tool_result, x) \<Rightarrow>
                         run_tool_calls env tools msg a tcs
                           (extend_at a
                              [ModelMessage msg,
                               Tool (tc_id tc) (tc_name tc) (json_dumps tool_result)]
                              (record_call (Invoke (tc_name tc) kw (Inr tool_result))
                                 (st\<lparr>ext := x\<rparr>)))))))"

text \<open>Lines 91 and 92: the text of the response in hand is appended and returned.\<close>

definition finish :: "addr \<Rightarrow> chat_completion \<Rightarrow> 's machine \<Rightarrow>
    (error + string option \<times> addr) \<times> 's machine" where
  "finish a response st =
     (case first response of
        Inl e \<Rightarrow> (Inl e, st)
      | Inr m \<Rightarrow> (Inr (content m, a), extend_at a [Assistant (content m)] st))"

text \<open>Lines 81 to 92, from the first response on.\<close>

definition after_first :: "'s env \<Rightarrow> (string, 's tool) dict \<Rightarrow> addr \<Rightarrow> chat_completion \<Rightarrow>
    's machine \<Rightarrow> (error + string option \<times> addr) \<times> 's machine" where
  "after_first env tools a response st =
     (case first response of
        Inl e \<Rightarrow> (Inl e, st)
      | Inr msg \<Rightarrow>
          (case tool_calls msg of
             None \<Rightarrow> finish a response st
           | Some [] \<Rightarrow> finish a response st
           | Some (tc # tcs) \<Rightarrow>
               (case run_tool_calls env tools msg a (tc # tcs) st of
                  (Inl e, st1) \<Rightarrow> (Inl e, st1)
                | (Inr _, st1) \<Rightarrow>
                    (case create env (second_request env (heap st1 a)) st1 of
                       (Inl e, st2) \<Rightarrow> (Inl e, st2)
                     | (Inr response2, st2) \<Rightarrow> finish a response2 st2))))"

definition agent_loop :: "'s env \<Rightarrow> string \<Rightarrow> (string, 's tool) dict \<Rightarrow> addr option \<Rightarrow>
    's machine \<Rightarrow> (error + string option \<times> addr) \<times> 's machine" where
  "agent_loop env query tools messages st =
     (case seed env tools messages st of
        (Inl e, st0) \<Rightarrow> (Inl e, st0)
      | (Inr a, st0) \<Rightarrow>
          (let st1 = extend_at a [User query] st0 in
           case create env (first_request env tools (heap st1 a)) st1 of
             (Inl e, st2) \<Rightarrow> (Inl e, st2)
           | (Inr response, st2) \<Rightarrow> after_first env tools a response st2))"

section \<open>Reading a turn off the state\<close>

text \<open>
  The calls made between two states, and the messages a list holds beyond an earlier
  length: the calls and the messages of one turn.
\<close>

definition calls_since :: "'s machine \<Rightarrow> 's machine \<Rightarrow> call_event list" where
  "calls_since st st' = drop (length (calls st)) (calls st')"

definition appended :: "message list \<Rightarrow> message list \<Rightarrow> message list" where
  "appended old new = drop (length old) new"

fun is_chat :: "call_event \<Rightarrow> bool" where
  "is_chat (ChatCreate req r) = True"
| "is_chat (Invoke n kw r) = False"

fun is_invoke :: "call_event \<Rightarrow> bool" where
  "is_invoke (ChatCreate req r) = False"
| "is_invoke (Invoke n kw r) = True"

fun is_tool_result :: "message \<Rightarrow> bool" where
  "is_tool_result (Tool i n c) = True"
| "is_tool_result _ = False"



text \<open>The tool-call requests a message carries: none for \<^verbatim>\<open>None\<close>.\<close>

definition requested :: "chat_message \<Rightarrow> tool_call list" where
  "requested msg = (case tool_calls msg of None \<Rightarrow> [] | Some tcs \<Rightarrow> tcs)"

text \<open>
  For the proofs: the messages and the calls that a list of completed tool calls
  (request, decoded arguments, returned text) leaves behind.
\<close>

definition tool_messages :: "chat_message \<Rightarrow> (tool_call \<times> kwargs \<times> string) list \<Rightarrow> message list" where
  "tool_messages msg cs =
     concat (map (\<lambda>(tc, kw, r). [ModelMessage msg, Tool (tc_id tc) (tc_name tc) (json_dumps r)]) cs)"

definition done_events :: "(tool_call \<times> kwargs \<times> string) list \<Rightarrow> call_event list" where
  "done_events cs = map (\<lambda>(tc, kw, r). Invoke (tc_name tc) kw (Inr r)) cs"

section \<open>The prompt loop of \<^verbatim>\<open>main\<close>\<close>

text \<open>
  What \<^verbatim>\<open>input\<close> gives: a line, or the interrupt. Console output is not modelled.
\<close>

datatype input_event = Line string | KeyboardInterrupt

text \<open>
  \<^verbatim>\<open>user_input.lower() in ["quit", "exit", "q"]\<close>. Lowering the letters A to Z is enough
  to decide the test: no other code point below 256 lowers to an ASCII letter.
\<close>

definition lower_char :: "char \<Rightarrow> char" where
  "lower_char c =
     (if 65 \<le> (of_char c :: nat) \<and> (of_char c :: nat) \<le> 90
      then char_of (of_char c + (32 :: nat)) else c)"

definition is_quit :: "string \<Rightarrow> bool" where
  "is_quit user_input = (map lower_char user_input \<in> set [''quit'', ''exit'', ''q''])"

text \<open>
  Lines 132 to 144, over the inputs typed so far: \<^verbatim>\<open>messages\<close> is rebound only when
  \<^verbatim>\<open>agent_loop\<close> returns; an exception of the turn is caught and the loop goes on.
  The result is the variable \<^verbatim>\<open>messages\<close> and the state once the inputs are used up
  or the loop has ended.
\<close>

fun prompt_loop :: "'s env \<Rightarrow> (string, 's tool) dict \<Rightarrow> input_event list \<Rightarrow> addr option \<Rightarrow>
    's machine \<Rightarrow> addr option \<times> 's machine" where
  "prompt_loop env tools [] messages st = (messages, st)"
| "prompt_loop env tools (KeyboardInterrupt # ins) messages st = (messages, st)"
| "prompt_loop env tools (Line user_input # ins) messages st =
     (if is_quit user_input then (messages, st)
      else (case agent_loop env user_input tools messages st of
              (Inl e, st') \<Rightarrow> prompt_loop env tools ins messages st'
            | (Inr (response, a), st') \<Rightarrow> prompt_loop env tools ins (Some a) st'))"

section \<open>\<^verbatim>\<open>MCPClient\<close>\<close>

record server_params =
  command :: string
  args :: "string list"
  env_vars :: "(string \<times> string) list option"

text \<open>
  The transport (the context manager \<^verbatim>\<open>stdio_client\<close> returns) and the session are
  objects of the MCP library. Each call of \<^verbatim>\<open>stdio_client\<close> makes a new connection,
  numbered from \<open>next_conn\<close>; the context manager, its streams and the session built on
  them carry that number. \<^verbatim>\<open>__init__\<close> sets \<^verbatim>\<open>session\<close> and \<^verbatim>\<open>_client\<close> to \<^verbatim>\<open>None\<close>;
  \<^verbatim>\<open>read\<close> and \<^verbatim>\<open>write\<close> exist once \<^verbatim>\<open>connect\<close> has set them.
\<close>

record mcp_client =
  params :: server_params
  session :: "nat option"
  client_cm :: "nat option"
  streams :: "nat option"

record tool_info =
  ti_name :: string
  ti_description :: "string option"
  ti_inputSchema :: json

text \<open>
  What \<^verbatim>\<open>session.list_tools()\<close> returns, as far as \<^verbatim>\<open>main\<close> looks at it: a tuple or
  not, and an item of the tuple as a list of tool objects or \<^verbatim>\<open>None\<close>, which cannot
  be iterated. An element of the content of a tool's response has a \<^verbatim>\<open>text\<close> or not.
\<close>

datatype tuple_item = ToolList "tool_info list" | NoneItem

datatype tools_data = TupleData "tuple_item list" | NotATuple

datatype content_item = TextContent string | OtherContent

text \<open>The calls made to the MCP library, in order, by connection.\<close>

datatype mcp_event =
    StdioEnter nat
  | SessionEnter nat
  | Initialize nat
  | ListTools nat
  | CallTool nat string kwargs
  | SessionExit nat
  | StdioExit nat

text \<open>
  The configuration (\<^verbatim>\<open>config.json\<close>) and the collaborators of the whole program, acting
  on a world \<open>'w\<close>: the chat API, \<^verbatim>\<open>json.loads\<close>, and the MCP library's
  \<^verbatim>\<open>stdio_client(...).__aenter__\<close>, \<^verbatim>\<open>ClientSession.__aenter__\<close>, \<^verbatim>\<open>initialize\<close>,
  \<^verbatim>\<open>list_tools\<close>, \<^verbatim>\<open>call_tool\<close> and the two \<^verbatim>\<open>__aexit__\<close>. A call that returns nothing
  gives \<open>None\<close>, or the exception it raises.
\<close>

record server_config =
  srv_name :: string
  srv_command :: string
  srv_args :: "string list"
  srv_env :: "(string \<times> string) list option"

record 'w shell_env =
  cfg_model :: string
  cfg_system_prompt_format :: "string \<Rightarrow> error + string"
  cfg_mcp_servers :: "server_config list"
  api_create :: "chat_request \<Rightarrow> 'w \<Rightarrow> (error + chat_completion) \<times> 'w"
  loads :: "string \<Rightarrow> error + json"
  stdio_aenter :: "nat \<Rightarrow> server_params \<Rightarrow> 'w \<Rightarrow> error option \<times> 'w"
  session_aenter :: "nat \<Rightarrow> 'w \<Rightarrow> error option \<times> 'w"
  session_initialize :: "nat \<Rightarrow> 'w \<Rightarrow> error option \<times> 'w"
  session_list_tools :: "nat \<Rightarrow> 'w \<Rightarrow> (error + tools_data) \<times> 'w"
  session_call_tool :: "nat \<Rightarrow> string \<Rightarrow> kwargs \<Rightarrow> 'w \<Rightarrow> (error + content_item list) \<times> 'w"
  session_aexit :: "nat \<Rightarrow> 'w \<Rightarrow> error option \<times> 'w"
  stdio_aexit :: "nat \<Rightarrow> 'w \<Rightarrow> error option \<times> 'w"

text \<open>
  The state the clients and their callables act on: the world, the \<^verbatim>\<open>MCPClient\<close>
  objects by address, the next free address and connection number, and the calls made
  to the MCP library so far.
\<close>

record 'w mcp_state =
  world :: 'w
  clients :: "nat \<Rightarrow> mcp_client"
  next_client :: nat
  next_conn :: nat
  mcp_trace :: "mcp_event list"

definition ext_call :: "mcp_event \<Rightarrow> ('w \<Rightarrow> 'r \<times> 'w) \<Rightarrow> 'w mcp_state \<Rightarrow> 'r \<times> 'w mcp_state" where
  "ext_call ev f s =
     (case f (world s) of (r, w) \<Rightarrow> (r, s\<lparr>world := w, mcp_trace := mcp_trace s @ [ev]\<rparr>))"

definition set_client :: "nat \<Rightarrow> (mcp_client \<Rightarrow> mcp_client) \<Rightarrow> 'w mcp_state \<Rightarrow> 'w mcp_state" where
  "set_client cid f s = s\<lparr>clients := (clients s)(cid := f (clients s cid))\<rparr>"

text \<open>\<^verbatim>\<open>MCPClient(server_params)\<close>\<close>

definition new_client :: "server_params \<Rightarrow> 'w mcp_state \<Rightarrow> nat \<times> 'w mcp_state" where
  "new_client p s =
     (next_client s,
      s\<lparr>clients := (clients s)(next_client s :=
           \<lparr>params = p, session = None, client_cm = None, streams = None\<rparr>),
        next_client := Suc (next_client s)\<rparr>)"

text \<open>
  \<^verbatim>\<open>connect\<close> (lines 38 to 45): each attribute is assigned as soon as its value is there,
  so an exception leaves the earlier assignments in place.
\<close>

definition connect :: "'w shell_env \<Rightarrow> nat \<Rightarrow> 'w mcp_state \<Rightarrow> (error + unit) \<times> 'w mcp_state" where
  "connect env cid s =
     (let c = next_conn s;
          s1 = set_client cid (\<lambda>cl. cl\<lparr>client_cm := Some c\<rparr>) (s\<lparr>next_conn := Suc c\<rparr>)
      in case ext_call (StdioEnter c) (stdio_aenter env c (params (clients s1 cid))) s1 of
           (Some e, s2) \<Rightarrow> (Inl e, s2)
         | (None, s2) \<Rightarrow>
             (case ext_call (SessionEnter c) (session_aenter env c)
                     (set_client cid (\<lambda>cl. cl\<lparr>streams := Some c\<rparr>) s2) of
                (Some e, s3) \<Rightarrow> (Inl e, s3)
              | (None, s3) \<Rightarrow>
                  (case ext_call (Initialize c) (session_initialize env c)
                          (set_client cid (\<lambda>cl. cl\<lparr>session := Some c\<rparr>) s3) of
                     (Some e, s4) \<Rightarrow> (Inl e, s4)
                   | (None, s4) \<Rightarrow> (Inr (), s4))))"

text \<open>\<^verbatim>\<open>__aenter__\<close>\<close>

definition aenter :: "'w shell_env \<Rightarrow> nat \<Rightarrow> 'w mcp_state \<Rightarrow> (error + unit) \<times> 'w mcp_state" where
  "aenter env cid s = connect env cid s"

text \<open>\<^verbatim>\<open>__aexit__\<close> (lines 32 to 36): neither attribute is reset.\<close>

definition aexit :: "'w shell_env \<Rightarrow> nat \<Rightarrow> 'w mcp_state \<Rightarrow> (error + unit) \<times> 'w mcp_state" where
  "aexit env cid s =
     (case (case session (clients s cid) of
              None \<Rightarrow> (None, s)
            | Some c \<Rightarrow> ext_call (SessionExit c) (session_aexit env c) s) of
        (Some e, s1) \<Rightarrow> (Inl e, s1)
      | (None, s1) \<Rightarrow>
          (case client_cm (clients s1 cid) of
             None \<Rightarrow> (Inr (), s1)
           | Some c \<Rightarrow>
               (case ext_call (StdioExit c) (stdio_aexit env c) s1 of
                  (Some e, s2) \<Rightarrow> (Inl e, s2)
                | (None, s2) \<Rightarrow> (Inr (), s2))))"

definition get_available_tools :: "'w shell_env \<Rightarrow> nat \<Rightarrow> 'w mcp_state \<Rightarrow>
    (error + tools_data) \<times> 'w mcp_state" where
  "get_available_tools env cid s =
     (case session (clients s cid) of
        None \<Rightarrow> (Inl NotConnected, s)
      | Some c \<Rightarrow> ext_call (ListTools c) (session_list_tools env c) s)"

text \<open>
  The inner function \<^verbatim>\<open>callable\<close> of \<^verbatim>\<open>call_tool\<close> (lines 56 to 59), closed over the client
  and the tool's name: it reads \<^verbatim>\<open>self.session\<close> when it is called.
\<close>

definition callable :: "'w shell_env \<Rightarrow> nat \<Rightarrow> string \<Rightarrow> kwargs \<Rightarrow> 'w mcp_state \<Rightarrow>
    (error + string) \<times> 'w mcp_state" where
  "callable env cid tool_name kw s =
     (case session (clients s cid) of
        None \<Rightarrow> (Inl AttributeError, s)
      | Some c \<Rightarrow>
          (case ext_call (CallTool c tool_name kw) (session_call_tool env c tool_name kw) s of
             (Inl e, s1) \<Rightarrow> (Inl e, s1)
           | (Inr response_content, s1) \<Rightarrow>
               (case first response_content of
                  Inl e \<Rightarrow> (Inl e, s1)
                | Inr (TextContent t) \<Rightarrow> (Inr t, s1)
                | Inr OtherContent \<Rightarrow> (Inl AttributeError, s1))))"

text \<open>\<^verbatim>\<open>call_tool\<close> (lines 52 to 61): the check is made when the callable is built.\<close>

definition call_tool :: "'w shell_env \<Rightarrow> nat \<Rightarrow> string \<Rightarrow> 'w mcp_state \<Rightarrow>
    error + (kwargs \<Rightarrow> 'w mcp_state \<Rightarrow> (error + string) \<times> 'w mcp_state)" where
  "call_tool env cid tool_name s =
     (case session (clients s cid) of
        None \<Rightarrow> Inl NotConnected
      | Some c \<Rightarrow> Inr (callable env cid tool_name))"

section \<open>\<^verbatim>\<open>main\<close>\<close>

text \<open>Lines 116 to 128: one entry per tool, a later one replacing an earlier one of its name.\<close>

fun register_tools :: "'w shell_env \<Rightarrow> nat \<Rightarrow> tool_info list \<Rightarrow>
    (string, 'w mcp_state tool) dict \<Rightarrow> 'w mcp_state \<Rightarrow> error + (string, 'w mcp_state tool) dict" where
  "register_tools env cid [] tools s = Inr tools"
| "register_tools env cid (t # ts) tools s =
     (case call_tool env cid (ti_name t) s of
        Inl e \<Rightarrow> Inl e
      | Inr f \<Rightarrow>
          register_tools env cid ts
            (dict_set tools (ti_name t)
               \<lparr>t_name = ti_name t, t_callable = f,
                t_schema = \<lparr>schema_type = ''function'',
                  schema_function = \<lparr>fn_name = ti_name t, fn_description = ti_description t,
                                     fn_parameters = ti_inputSchema t\<rparr>\<rparr>\<rparr>) s)"

text \<open>The body of the \<^verbatim>\<open>async with\<close> (lines 112 to 128).\<close>

definition with_body :: "'w shell_env \<Rightarrow> nat \<Rightarrow> (string, 'w mcp_state tool) dict \<Rightarrow> 'w mcp_state \<Rightarrow>
    (error + (string, 'w mcp_state tool) dict) \<times> 'w mcp_state" where
  "with_body env cid tools s =
     (case get_available_tools env cid s of
        (Inl e, s1) \<Rightarrow> (Inl e, s1)
      | (Inr NotATuple, s1) \<Rightarrow> (Inr tools, s1)
      | (Inr (TupleData items), s1) \<Rightarrow>
          (if 2 \<le> length items
           then (case items ! 1 of
                   NoneItem \<Rightarrow> (Inl TypeError, s1)
                 | ToolList ts \<Rightarrow> (register_tools env cid ts tools s1, s1))
           else (Inr tools, s1)))"

text \<open>
  The \<^verbatim>\<open>for\<close> loop over the configured servers (lines 102 to 128). When \<^verbatim>\<open>__aenter__\<close>
  raises, neither the body nor \<^verbatim>\<open>__aexit__\<close> runs; otherwise \<^verbatim>\<open>__aexit__\<close> runs when
  the body is left, also by an exception, which goes on unless \<^verbatim>\<open>__aexit__\<close> raises
  one of its own.
\<close>

fun setup_servers :: "'w shell_env \<Rightarrow> server_config list \<Rightarrow> (string, 'w mcp_state tool) dict \<Rightarrow>
    'w mcp_state \<Rightarrow> (error + (string, 'w mcp_state tool) dict) \<times> 'w mcp_state" where
  "setup_servers env [] tools s = (Inr tools, s)"
| "setup_servers env (server # servers) tools s =
     (case new_client \<lparr>command = srv_command server, args = srv_args server,
                       env_vars = srv_env server\<rparr> s of
        (cid, s1) \<Rightarrow>
          (case aenter env cid s1 of
             (Inl e, s2) \<Rightarrow> (Inl e, s2)
           | (Inr _, s2) \<Rightarrow>
               (case with_body env cid tools s2 of
                  (Inl e, s3) \<Rightarrow>
                    (case aexit env cid s3 of
                       (Inl e', s4) \<Rightarrow> (Inl e', s4)
                     | (Inr _, s4) \<Rightarrow> (Inl e, s4))
                | (Inr tools', s3) \<Rightarrow>
                    (case aexit env cid s3 of
                       (Inl e', s4) \<Rightarrow> (Inl e', s4)
                     | (Inr _, s4) \<Rightarrow> setup_servers env servers tools' s4))))"

text \<open>The environment \<^verbatim>\<open>agent_loop\<close> runs in, inside the program.\<close>

definition loop_env :: "'w shell_env \<Rightarrow> 'w mcp_state env" where
  "loop_env env =
     \<lparr>MODEL = cfg_model env,
      SYSTEM_PROMPT_format = cfg_system_prompt_format env,
      chat_create = (\<lambda>req s. case api_create env req (world s) of (r, w) \<Rightarrow> (r, s\<lparr>world := w\<rparr>)),
      json_loads = loads env\<rparr>"

text \<open>
  \<^verbatim>\<open>main\<close>: an exception of the set-up ends the program before the first prompt.
\<close>

definition main :: "'w shell_env \<Rightarrow> input_event list \<Rightarrow> 'w mcp_state machine \<Rightarrow>
    addr option \<times> 'w mcp_state machine" where
  "main env inputs st =
     (case setup_servers env (cfg_mcp_servers env) [] (ext st) of
        (Inl e, s) \<Rightarrow> (None, st\<lparr>ext := s\<rparr>)
      | (Inr tools, s) \<Rightarrow> prompt_loop (loop_env env) tools inputs None (st\<lparr>ext := s\<rparr>))"

text \<open>
  Whether every \<^verbatim>\<open>call_tool\<close> of a trace goes to a session that has been entered and not
  yet exited; \<open>opened\<close> lists the sessions open at the start.
\<close>

fun calls_in_scope :: "nat list \<Rightarrow> mcp_event list \<Rightarrow> bool" where
  "calls_in_scope opened [] = True"
| "calls_in_scope opened (SessionEnter c # evs) = calls_in_scope (c # opened) evs"
| "calls_in_scope opened (SessionExit c # evs) = calls_in_scope (removeAll c opened) evs"
| "calls_in_scope opened (CallTool c n kw # evs) = (c \<in> set opened \<and> calls_in_scope opened evs)"
| "calls_in_scope opened (ev # evs) = calls_in_scope opened evs"

section \<open>An example session\<close>

text \<open>
  The scenario of the specification: one provider with the tool \<^verbatim>\<open>get_weather\<close>, which
  answers \<^verbatim>\<open>18C, cloudy\<close>; beside it a tool \<^verbatim>\<open>get_time\<close> whose provider fails. The chat
  API answers from a script, one reply per request. \<open>example_loads\<close> is \<^verbatim>\<open>json.loads\<close>
  on the three argument texts of the examples.
\<close>

type_synonym replies = "(error + chat_completion) list"

definition scripted_create :: "chat_request \<Rightarrow> replies \<Rightarrow> (error + chat_completion) \<times> replies" where
  "scripted_create req w =
     (case w of [] \<Rightarrow> (Inl (External ''no reply''), []) | r # rs \<Rightarrow> (r, rs))"

definition example_loads :: "string \<Rightarrow> error + json" where
  \<open>example_loads s =
     (if s = ''{"city": "Paris"}'' then Inr (JObject [(''city'', JString ''Paris'')])
      else if s = ''{"city": "London"}'' then Inr (JObject [(''city'', JString ''London'')])
      else if s = ''{}'' then Inr (JObject [])
      else Inl JSONDecodeError)\<close>

definition paris_call :: tool_call where
  \<open>paris_call = \<lparr>tc_id = ''call_1'', tc_name = ''get_weather'',
                  tc_arguments = ''{"city": "Paris"}''\<rparr>\<close>

definition london_call :: tool_call where
  \<open>london_call = \<lparr>tc_id = ''call_2'', tc_name = ''get_weather'',
                   tc_arguments = ''{"city": "London"}''\<rparr>\<close>

definition time_call :: tool_call where
  "time_call = \<lparr>tc_id = ''call_3'', tc_name = ''get_time'', tc_arguments = ''{}''\<rparr>"

definition weather_schema :: schema where
  "weather_schema =
     \<lparr>schema_type = ''function'',
      schema_function = \<lparr>fn_name = ''get_weather'', fn_description = Some ''Weather of a city'',
                         fn_parameters = JObject []\<rparr>\<rparr>"

definition time_schema :: schema where
  "time_schema =
     \<lparr>schema_type = ''function'',
      schema_function = \<lparr>fn_name = ''get_time'', fn_description = None,
                         fn_parameters = JObject []\<rparr>\<rparr>"

definition weather_tool :: "'s tool" where
  "weather_tool =
     \<lparr>t_name = ''get_weather'', t_callable = (\<lambda>kw s. (Inr ''18C, cloudy'', s)),
      t_schema = weather_schema\<rparr>"

definition time_tool :: "'s tool" where
  "time_tool =
     \<lparr>t_name = ''get_time'', t_callable = (\<lambda>kw s. (Inl (External ''provider error''), s)),
      t_schema = time_schema\<rparr>"

definition example_tools :: "(string, 's tool) dict" where
  "example_tools = [(''get_weather'', weather_tool), (''get_time'', time_tool)]"

definition example_env :: "replies env" where
  "example_env =
     \<lparr>MODEL = ''model'',
      SYSTEM_PROMPT_format = (\<lambda>t. Inr (''Tools:\<newline>- '' @ t)),
      chat_create = scripted_create,
      json_loads = example_loads\<rparr>"

definition start :: "'s \<Rightarrow> 's machine" where
  "start w = \<lparr>ext = w, heap = (\<lambda>a. []), next_addr = 0, calls = []\<rparr>"

text \<open>Replies: plain text, and a message that requests the given tool calls.\<close>

definition says :: "string \<Rightarrow> error + chat_completion" where
  "says t = Inr [\<lparr>content = Some t, tool_calls = None\<rparr>]"

definition asks :: "tool_call list \<Rightarrow> chat_message" where
  "asks tcs = \<lparr>content = None, tool_calls = Some tcs\<rparr>"

text \<open>The whole program on that provider, every call to the MCP library succeeding.\<close>

definition example_shell :: "replies shell_env" where
  "example_shell =
     \<lparr>cfg_model = ''model'',
      cfg_system_prompt_format = (\<lambda>t. Inr (''Tools:\<newline>- '' @ t)),
      cfg_mcp_servers = [\<lparr>srv_name = ''weather'', srv_command = ''python'',
                          srv_args = [''weather_server.py''], srv_env = None\<rparr>],
      api_create = scripted_create,
      loads = example_loads,
      stdio_aenter = (\<lambda>c p w. (None, w)),
      session_aenter = (\<lambda>c w. (None, w)),
      session_initialize = (\<lambda>c w. (None, w)),
      session_list_tools = (\<lambda>c w. (Inr (TupleData [NoneItem,
         ToolList [\<lparr>ti_name = ''get_weather'', ti_description = Some ''Weather of a city'',
                    ti_inputSchema = JObject []\<rparr>]]), w)),
      session_call_tool = (\<lambda>c n kw w. (Inr [TextContent ''18C, cloudy''], w)),
      session_aexit = (\<lambda>c w. (None, w)),
      stdio_aexit = (\<lambda>c w. (None, w))\<rparr>"

text \<open>The same provider, but its handshake fails.\<close>

definition no_handshake_shell :: "replies shell_env" where
  "no_handshake_shell =
     example_shell\<lparr>session_initialize := (\<lambda>c w. (Some (External ''handshake failed''), w))\<rparr>"

definition no_clients :: "'w \<Rightarrow> 'w mcp_state" where
  "no_clients w =
     \<lparr>world = w,
      clients = (\<lambda>i. \<lparr>params = \<lparr>command = [], args = [], env_vars = None\<rparr>,
                      session = None, client_cm = None, streams = None\<rparr>),
      next_client = 0, next_conn = 0, mcp_trace = []\<rparr>"

text \<open>
  For the proofs about the calls to the MCP library: the tool calls among the events,
  the sessions open after a trace, a registry whose callables are all closures of
  \<^verbatim>\<open>call_tool\<close>, and two ways a state can follow another: no tool call was made, or
  nothing but tool calls.
\<close>

fun is_call_tool :: "mcp_event \<Rightarrow> bool" where
  "is_call_tool (CallTool c n kw) = True"
| "is_call_tool ev = False"

fun opened_after :: "nat list \<Rightarrow> mcp_event list \<Rightarrow> nat list" where
  "opened_after opened [] = opened"
| "opened_after opened (SessionEnter c # evs) = opened_after (c # opened) evs"
| "opened_after opened (SessionExit c # evs) = opened_after (removeAll c opened) evs"
| "opened_after opened (ev # evs) = opened_after opened evs"

definition registered :: "'w shell_env \<Rightarrow> (string, 'w mcp_state tool) dict \<Rightarrow> bool" where
  "registered env tools =
     list_all (\<lambda>(n, t). \<exists>cid name. t_callable t = callable env cid name) tools"

definition quiet :: "'w mcp_state \<Rightarrow> 'w mcp_state \<Rightarrow> bool" where
  "quiet s s' = (\<exists>evs. mcp_trace s' = mcp_trace s @ evs \<and> filter is_call_tool evs = [])"

definition tool_calls_only :: "'w mcp_state \<Rightarrow> 'w mcp_state \<Rightarrow> bool" where
  "tool_calls_only s s' = (\<exists>evs. mcp_trace s' = mcp_trace s @ evs \<and> list_all is_call_tool evs)"

text \<open>
  For the proofs: the state a successful \<^verbatim>\<open>connect\<close> of the client at \<open>cid\<close> leaves,
  with the new connection \<open>c\<close> and the world \<open>w\<close> after the handshake.
\<close>

definition connected :: "nat \<Rightarrow> nat \<Rightarrow> 'w \<Rightarrow> 'w mcp_state \<Rightarrow> 'w mcp_state" where
  "connected cid c w s =
     s\<lparr>world := w,
       clients := (clients s)(cid := (clients s cid)\<lparr>client_cm := Some c, streams := Some c,
                                                     session := Some c\<rparr>),
       next_conn := Suc c,
       mcp_trace := mcp_trace s @ [StdioEnter c, SessionEnter c, Initialize c]\<rparr>"

text \<open>The client of the example: made for the configured provider, not yet connected.\<close>

definition example_client :: "replies mcp_state" where
  "example_client =
     snd (new_client \<lparr>command = ''python'', args = [''weather_server.py''], env_vars = None\<rparr>
            (no_clients []))"

section \<open>The tool loop: what a run leaves behind\<close>

text \<open>The definitions unfolded to run the model on the example session.\<close>

lemmas example_defs = example_env_def example_tools_def weather_tool_def time_tool_def
  weather_schema_def time_schema_def start_def says_def asks_def paris_call_def
  london_call_def time_call_def example_loads_def scripted_create_def

lemmas loop_defs = agent_loop_def seed_def fresh_history_def alloc_def extend_at_def
  record_call_def tools_text_def tool_line_def py_str_def dict_values_def dict_get_def
  first_request_def second_request_def create_def after_first_def finish_def first_def
  json_dumps_def escape_char_def calls_since_def appended_def requested_def

lemmas shell_defs = example_shell_def no_handshake_shell_def no_clients_def example_client_def
  connect_def aenter_def aexit_def ext_call_def set_client_def new_client_def
  get_available_tools_def callable_def call_tool_def with_body_def loop_env_def main_def
  connected_def


lemma tool_messages_simps [simp]:
  "tool_messages msg [] = []"
  "tool_messages msg ((tc, kw, r) # cs) =
     ModelMessage msg # Tool (tc_id tc) (tc_name tc) (json_dumps r) # tool_messages msg cs"
  by (simp_all add: tool_messages_def)

lemma done_events_simps [simp]:
  "done_events [] = []"
  "done_events ((tc, kw, r) # cs) = Invoke (tc_name tc) kw (Inr r) # done_events cs"
  by (simp_all add: done_events_def)

lemma run_tool_calls_shape:
  "run_tool_calls env tools msg a tcs st = (r, st') \<Longrightarrow>
   \<exists>cs failing.
      heap st' = (heap st)(a := heap st a @ tool_messages msg cs)
    \<and> calls st' = calls st @ done_events cs @ failing
    \<and> next_addr st' = next_addr st
    \<and> map fst cs = take (length cs) tcs
    \<and> (case r of
          Inr u \<Rightarrow> length cs = length tcs \<and> failing = []
        | Inl e \<Rightarrow> length cs < length tcs \<and>
            (failing = [] \<or> (\<exists>n kw. failing = [Invoke n kw (Inl e)])))"
proof (induction tcs arbitrary: st)
  case Nil
  then have "st' = st" "r = Inr ()" by auto
  then show ?case
    by (intro exI[of _ "[]"]) simp
next
  case (Cons tc tcs)
  let ?stop = "\<lambda>failing. heap st' = heap st \<and> calls st' = calls st @ failing \<and>
     next_addr st' = next_addr st \<and> (\<exists>e. r = Inl e \<and>
       (failing = [] \<or> (\<exists>n kw. failing = [Invoke n kw (Inl e)])))"
  have stop: ?case if "?stop failing" for failing
    using that by (intro exI[of _ "[]"] exI[of _ failing]) auto
  show ?case
  proof (cases "json_loads env (tc_arguments tc)")
    case (Inl e)
    with Cons.prems have "?stop []" by auto
    then show ?thesis by (rule stop)
  next
    case (Inr arguments)
    note args = this
    show ?thesis
    proof (cases "dict_get tools (tc_name tc)")
      case None
      with args Cons.prems have "?stop []" by auto
      then show ?thesis by (rule stop)
    next
      case (Some t)
      note tool = this
      show ?thesis
      proof (cases "as_kwargs arguments")
        case (Inl e)
        with args tool Cons.prems have "?stop []" by auto
        then show ?thesis by (rule stop)
      next
        case (Inr kw)
        note kw = this
        obtain res x where call: "t_callable t kw (ext st) = (res, x)"
          by (cases "t_callable t kw (ext st)")
        show ?thesis
        proof (cases res)
          case (Inl e)
          with args tool kw call Cons.prems
          have "?stop [Invoke (tc_name tc) kw (Inl e)]"
            by (auto simp: record_call_def)
          then show ?thesis by (rule stop)
        next
          case (Inr out)
          let ?st1 = "extend_at a [ModelMessage msg, Tool (tc_id tc) (tc_name tc) (json_dumps out)]
                        (record_call (Invoke (tc_name tc) kw (Inr out)) (st\<lparr>ext := x\<rparr>))"
          from Inr args tool kw call Cons.prems
          have rec: "run_tool_calls env tools msg a tcs ?st1 = (r, st')" by simp
          from Cons.IH[OF rec] obtain cs failing where
            h: "heap st' = (heap ?st1)(a := heap ?st1 a @ tool_messages msg cs)"
            and c: "calls st' = calls ?st1 @ done_events cs @ failing"
            and n: "next_addr st' = next_addr ?st1"
            and d: "map fst cs = take (length cs) tcs"
            and o: "(case r of
                Inr u \<Rightarrow> length cs = length tcs \<and> failing = []
              | Inl e \<Rightarrow> length cs < length tcs \<and>
                  (failing = [] \<or> (\<exists>n kw. failing = [Invoke n kw (Inl e)])))"
            by blast
          show ?thesis
            using h c n d o
            by (intro exI[of _ "(tc, kw, out) # cs"] exI[of _ failing])
               (auto simp: extend_at_def record_call_def split: sum.splits)
        qed
      qed
    qed
  qed
qed




lemma done_events_no_chat: "filter is_chat (done_events cs) = []"
  by (induction cs) auto

lemma done_events_all_invoke: "filter is_invoke (done_events cs) = done_events cs"
  by (induction cs) auto

lemma done_events_no_failure: "Invoke n kw (Inl e) \<notin> set (done_events cs)"
  by (induction cs) auto

lemma fresh_history_frame:
  "fresh_history env tools st = (r, st0) \<Longrightarrow> calls st0 = calls st \<and> ext st0 = ext st"
  by (auto simp: fresh_history_def alloc_def split: sum.splits)

lemma seed_frame:
  "seed env tools messages st = (r, st0) \<Longrightarrow> calls st0 = calls st \<and> ext st0 = ext st"
  by (auto simp: seed_def split: option.splits if_splits dest: fresh_history_frame)

lemma calls_since_append [simp]: "calls st' = calls st @ evs \<Longrightarrow> calls_since st st' = evs"
  by (simp add: calls_since_def)

lemma appended_append [simp]: "appended old (old @ new) = new"
  by (simp add: appended_def)

lemma agent_loop_seeded:
  assumes "seed env tools messages st = (Inr a, st0)"
  shows "agent_loop env query tools messages st =
    (case chat_create env (first_request env tools (heap st0 a @ [User query])) (ext st0) of
       (Inl e, x) \<Rightarrow>
         (Inl e, record_call (ChatCreate (first_request env tools (heap st0 a @ [User query])) (Inl e))
                   (extend_at a [User query] st0\<lparr>ext := x\<rparr>))
     | (Inr response, x) \<Rightarrow>
         after_first env tools a response
           (record_call (ChatCreate (first_request env tools (heap st0 a @ [User query])) (Inr response))
              (extend_at a [User query] st0\<lparr>ext := x\<rparr>)))"
  using assms
  by (auto simp: agent_loop_def create_def extend_at_def Let_def split: prod.splits sum.splits)


lemma finish_shape:
  "finish a response st = (r, st') \<Longrightarrow>
     calls st' = calls st \<and>
     (case r of Inl e \<Rightarrow> st' = st
      | Inr res \<Rightarrow> \<exists>m. first response = Inr m \<and> res = (content m, a) \<and>
          heap st' = (heap st)(a := heap st a @ [Assistant (content m)]))"
  by (auto simp: finish_def extend_at_def split: sum.splits)

lemma after_first_ok:
  assumes "after_first env tools a response st = (Inr res, st')"
    and "first response = Inr msg"
  shows "\<exists>cs c. map fst cs = requested msg \<and>
           heap st' a = heap st a @ tool_messages msg cs @ [Assistant c] \<and> res = (c, a)"
proof (cases "requested msg")
  case Nil
  with assms have "finish a response st = (Inr res, st')"
    by (auto simp: after_first_def requested_def split: option.splits list.splits)
  from finish_shape[OF this] Nil show ?thesis
    by (intro exI[of _ "[]"]) auto
next
  case (Cons tc tcs)
  then have tcs: "tool_calls msg = Some (tc # tcs)"
    by (auto simp: requested_def split: option.splits)
  obtain r1 st1 where run: "run_tool_calls env tools msg a (tc # tcs) st = (r1, st1)"
    by (cases "run_tool_calls env tools msg a (tc # tcs) st")
  with assms tcs obtain u where r1: "r1 = Inr u"
    by (cases r1) (auto simp: after_first_def)
  obtain r2 x2 where ch2: "chat_create env (second_request env (heap st1 a)) (ext st1) = (r2, x2)"
    by (cases "chat_create env (second_request env (heap st1 a)) (ext st1)")
  with assms tcs run r1 obtain response2 where r2: "r2 = Inr response2"
    by (cases r2) (auto simp: after_first_def create_def)
  let ?st2 = "record_call (ChatCreate (second_request env (heap st1 a)) r2) (st1\<lparr>ext := x2\<rparr>)"
  from assms tcs run r1 ch2 r2 have fin: "finish a response2 ?st2 = (Inr res, st')"
    by (auto simp: after_first_def create_def)
  from run_tool_calls_shape[OF run] r1 obtain cs where
    h: "heap st1 = (heap st)(a := heap st a @ tool_messages msg cs)"
    and d: "map fst cs = take (length cs) (tc # tcs)" and l: "length cs = length (tc # tcs)"
    by auto
  from d l have "map fst cs = tc # tcs" by simp
  with finish_shape[OF fin] h Cons show ?thesis
    by (intro exI[of _ cs]) (auto simp: record_call_def)
qed

lemma after_first_calls:
  assumes "after_first env tools a response st = (r, st')"
  shows "\<exists>cs failing. calls st' = calls st @ done_events cs @ failing \<and>
           (failing = [] \<or> (\<exists>n kw e. failing = [Invoke n kw (Inl e)] \<and> r = Inl e)
            \<or> (\<exists>req r2. failing = [ChatCreate req r2]))"
proof (cases "first response")
  case (Inl e)
  with assms show ?thesis
    by (intro exI[of _ "[]"]) (auto simp: after_first_def)
next
  case (Inr msg)
  show ?thesis
  proof (cases "requested msg")
    case Nil
    with assms Inr have "finish a response st = (r, st')"
      by (auto simp: after_first_def requested_def split: option.splits list.splits)
    from finish_shape[OF this] show ?thesis
      by (intro exI[of _ "[]"]) auto
  next
    case (Cons tc tcs)
    then have tcs: "tool_calls msg = Some (tc # tcs)"
      by (auto simp: requested_def split: option.splits)
    obtain r1 st1 where run: "run_tool_calls env tools msg a (tc # tcs) st = (r1, st1)"
      by (cases "run_tool_calls env tools msg a (tc # tcs) st")
    from run_tool_calls_shape[OF run] obtain cs failing where
      c: "calls st1 = calls st @ done_events cs @ failing"
      and o: "(case r1 of Inr u \<Rightarrow> length cs = length (tc # tcs) \<and> failing = []
        | Inl e \<Rightarrow> length cs < length (tc # tcs) \<and>
            (failing = [] \<or> (\<exists>n kw. failing = [Invoke n kw (Inl e)])))"
      by blast
    show ?thesis
    proof (cases r1)
      case (Inl e)
      with assms Inr tcs run have "r = Inl e" "st' = st1"
        by (auto simp: after_first_def)
      with c o Inl show ?thesis
        by (intro exI[of _ cs] exI[of _ failing]) auto
    next
      case (Inr u)
      obtain r2 x2 where ch2: "chat_create env (second_request env (heap st1 a)) (ext st1) = (r2, x2)"
        by (cases "chat_create env (second_request env (heap st1 a)) (ext st1)")
      let ?ev = "ChatCreate (second_request env (heap st1 a)) r2"
      have "calls st' = calls st1 @ [?ev]"
      proof (cases r2)
        case (Inl e)
        with assms \<open>first response = Inr msg\<close> tcs run Inr ch2 show ?thesis
          by (auto simp: after_first_def create_def record_call_def)
      next
        case r2: (Inr response2)
        with assms \<open>first response = Inr msg\<close> tcs run Inr ch2
        have "finish a response2 (record_call ?ev (st1\<lparr>ext := x2\<rparr>)) = (r, st')"
          by (auto simp: after_first_def create_def)
        from finish_shape[OF this] show ?thesis
          by (auto simp: record_call_def)
      qed
      with c o Inr show ?thesis
        by (intro exI[of _ cs] exI[of _ "[?ev]"]) auto
    qed
  qed
qed


text \<open>
  Claim C7. When the message of the first response carries no tool-call requests
  (\<^verbatim>\<open>None\<close> or an empty list), the turn makes exactly one chat-completion request,
  returns the text of that response and has appended the user message and that text
  to the history.
\<close>

theorem no_tool_calls_single_request:
  assumes "seed env tools messages st = (Inr a, st0)"
    and "chat_create env (first_request env tools (heap st0 a @ [User query])) (ext st0)
           = (Inr response, x)"
    and "first response = Inr msg"
    and "requested msg = []"
  shows "fst (agent_loop env query tools messages st) = Inr (content msg, a)
     \<and> calls_since st (snd (agent_loop env query tools messages st))
           = [ChatCreate (first_request env tools (heap st0 a @ [User query])) (Inr response)]
     \<and> heap (snd (agent_loop env query tools messages st)) a
           = heap st0 a @ [User query, Assistant (content msg)]"
proof -
  from assms(4) have "tool_calls msg = None \<or> tool_calls msg = Some []"
    by (auto simp: requested_def split: option.splits)
  with assms(1-3) seed_frame[OF assms(1)] show ?thesis
    by (auto simp: agent_loop_seeded after_first_def finish_def extend_at_def record_call_def)
qed

text \<open>The theorem at the example session, for a reply without tool calls.\<close>

theorem no_tool_calls_single_request_witness:
  "fst (agent_loop example_env ''hello'' example_tools None (start [says ''Hi!'']))
     = Inr (Some ''Hi!'', 0)
   \<and> length (calls_since (start [says ''Hi!''])
        (snd (agent_loop example_env ''hello'' example_tools None (start [says ''Hi!''])))) = 1
   \<and> heap (snd (agent_loop example_env ''hello'' example_tools None (start [says ''Hi!'']))) 0
     = [System ''Tools:\<newline>- get_weather: Weather of a city\<newline>- get_time: None'',
        User ''hello'', Assistant (Some ''Hi!'')]"
proof -
  let ?init = "start [says ''Hi!'']"
  let ?seeded = "snd (seed example_env example_tools None ?init)"
  let ?msg = "\<lparr>content = Some ''Hi!'', tool_calls = None\<rparr>"
  have sd: "seed example_env example_tools None ?init = (Inr 0, ?seeded)"
    by (simp add: example_defs loop_defs)
  have ch: "chat_create example_env
      (first_request example_env example_tools (heap ?seeded 0 @ [User ''hello''])) (ext ?seeded)
      = (Inr [?msg], [])"
    by (simp add: example_defs loop_defs)
  have fr: "first [?msg] = Inr ?msg" by (simp add: first_def)
  have rq: "requested ?msg = []" by (simp add: requested_def)
  from no_tool_calls_single_request[OF sd ch fr rq] show ?thesis
    by (simp add: example_defs loop_defs)
qed







text \<open>
  Claim C6. When a registered callable raises during a turn, the turn ends with that
  very exception, and the only chat-completion request of the turn is the first one.
\<close>

theorem handle_failure_aborts_turn:
  assumes run: "agent_loop env query tools messages st = (r, st')"
    and fail: "Invoke n kw (Inl e) \<in> set (calls_since st st')"
  shows "r = Inl e \<and> length (filter is_chat (calls_since st st')) = 1"
proof -
  obtain r0 st0 where sd: "seed env tools messages st = (r0, st0)"
    by (cases "seed env tools messages st")
  note fr = seed_frame[OF sd]
  show ?thesis
  proof (cases r0)
    case (Inl e0)
    with run sd have "st' = st0" by (simp add: agent_loop_def)
    with fr fail show ?thesis by (simp add: calls_since_def)
  next
    case (Inr a)
    let ?req = "first_request env tools (heap st0 a @ [User query])"
    obtain r1 x where ch: "chat_create env ?req (ext st0) = (r1, x)"
      by (cases "chat_create env ?req (ext st0)")
    let ?st1 = "record_call (ChatCreate ?req r1) (extend_at a [User query] st0\<lparr>ext := x\<rparr>)"
    have c1: "calls ?st1 = calls st @ [ChatCreate ?req r1]"
      using fr by (simp add: record_call_def extend_at_def)
    show ?thesis
    proof (cases r1)
      case (Inl e1)
      with run sd Inr ch have "st' = ?st1"
        by (simp add: agent_loop_seeded)
      with c1 fail show ?thesis by simp
    next
      case r1: (Inr response)
      with run sd Inr ch have "after_first env tools a response ?st1 = (r, st')"
        by (simp add: agent_loop_seeded)
      from after_first_calls[OF this] obtain cs failing where
        c: "calls st' = calls ?st1 @ done_events cs @ failing"
        and o: "failing = [] \<or> (\<exists>n kw e. failing = [Invoke n kw (Inl e)] \<and> r = Inl e)
            \<or> (\<exists>req r2. failing = [ChatCreate req r2])"
        by blast
      from c c1 have cs: "calls_since st st' = ChatCreate ?req r1 # done_events cs @ failing"
        by simp
      with fail have "Invoke n kw (Inl e) \<in> set failing"
        by (simp add: done_events_no_failure)
      with o have "failing = [Invoke n kw (Inl e)]" "r = Inl e" by auto
      with cs show ?thesis by (simp add: done_events_no_chat)
    qed
  qed
qed

text \<open>The theorem at the example session, for a reply whose second request goes to the failing tool.\<close>

theorem handle_failure_aborts_turn_witness:
  "Invoke ''get_time'' [] (Inl (External ''provider error''))
     \<in> set (calls_since (start [Inr [asks [paris_call, time_call]]])
          (snd (agent_loop example_env ''Weather and time?'' example_tools None
             (start [Inr [asks [paris_call, time_call]]]))))
   \<and> fst (agent_loop example_env ''Weather and time?'' example_tools None
          (start [Inr [asks [paris_call, time_call]]])) = Inl (External ''provider error'')
   \<and> length (filter is_chat (calls_since (start [Inr [asks [paris_call, time_call]]])
          (snd (agent_loop example_env ''Weather and time?'' example_tools None
             (start [Inr [asks [paris_call, time_call]]]))))) = 1"
proof -
  let ?init = "start [Inr [asks [paris_call, time_call]]]"
  let ?run = "agent_loop example_env ''Weather and time?'' example_tools None ?init"
  have run: "?run = (fst ?run, snd ?run)" by simp
  have fail: "Invoke ''get_time'' [] (Inl (External ''provider error''))
      \<in> set (calls_since ?init (snd ?run))"
    by (simp add: example_defs loop_defs)
  from handle_failure_aborts_turn[OF run fail] fail show ?thesis by simp
qed

text \<open>
  Claim C3, amended. When the first response requests one tool of the registry, with
  arguments that decode to a mapping, the registered callable is called exactly once,
  with that mapping; the text it returns is the content of the one tool-result
  message after \<^verbatim>\<open>json.dumps\<close>, that is between double quotes and escaped, not verbatim.
\<close>

theorem single_request_invokes_once:
  assumes sd: "seed env tools messages st = (Inr a, st0)"
    and ch: "chat_create env (first_request env tools (heap st0 a @ [User query])) (ext st0)
           = (Inr response, x1)"
    and fr: "first response = Inr msg"
    and tc: "requested msg = [tc]"
    and tl: "dict_get tools (tc_name tc) = Some t"
    and ld: "json_loads env (tc_arguments tc) = Inr (JObject kw)"
    and rs: "t_callable t kw x1 = (Inr r, x2)"
  shows "filter is_invoke (calls_since st (snd (agent_loop env query tools messages st)))
           = [Invoke (tc_name tc) kw (Inr r)]
     \<and> filter is_tool_result
           (appended (heap st0 a) (heap (snd (agent_loop env query tools messages st)) a))
           = [Tool (tc_id tc) (tc_name tc) (json_dumps r)]"
proof -
  from tc have tcs: "tool_calls msg = Some [tc]"
    by (auto simp: requested_def split: option.splits)
  let ?req = "first_request env tools (heap st0 a @ [User query])"
  let ?st1 = "record_call (ChatCreate ?req (Inr response)) (extend_at a [User query] st0\<lparr>ext := x1\<rparr>)"
  let ?st2 = "extend_at a [ModelMessage msg, Tool (tc_id tc) (tc_name tc) (json_dumps r)]
                (record_call (Invoke (tc_name tc) kw (Inr r)) (?st1\<lparr>ext := x2\<rparr>))"
  have run: "run_tool_calls env tools msg a [tc] ?st1 = (Inr (), ?st2)"
    using tl ld rs by (simp add: record_call_def extend_at_def)
  have c2: "calls ?st2 = calls st @ [ChatCreate ?req (Inr response), Invoke (tc_name tc) kw (Inr r)]"
    using seed_frame[OF sd] by (simp add: record_call_def extend_at_def)
  have h2: "heap ?st2 a = heap st0 a @ [User query, ModelMessage msg,
      Tool (tc_id tc) (tc_name tc) (json_dumps r)]"
    by (simp add: record_call_def extend_at_def)
  let ?req2 = "second_request env (heap ?st2 a)"
  obtain r2 x3 where ch2: "chat_create env ?req2 (ext ?st2) = (r2, x3)"
    by (cases "chat_create env ?req2 (ext ?st2)")
  let ?st3 = "record_call (ChatCreate ?req2 r2) (?st2\<lparr>ext := x3\<rparr>)"
  have c3: "calls ?st3 = calls st @ [ChatCreate ?req (Inr response),
      Invoke (tc_name tc) kw (Inr r), ChatCreate ?req2 r2]"
    using c2 by (simp add: record_call_def)
  have h3: "heap ?st3 a = heap ?st2 a" by (simp add: record_call_def)
  have al: "agent_loop env query tools messages st =
     (case r2 of Inl e \<Rightarrow> (Inl e, ?st3) | Inr response2 \<Rightarrow> finish a response2 ?st3)"
    using ch fr tcs run ch2
    by (simp add: agent_loop_seeded[OF sd] after_first_def create_def split: sum.splits)
  show ?thesis
  proof (cases r2)
    case (Inl e)
    with al have "snd (agent_loop env query tools messages st) = ?st3" by simp
    then show ?thesis using c3 h3 h2 by simp
  next
    case (Inr response2)
    obtain rf st4 where fin: "finish a response2 ?st3 = (rf, st4)"
      by (cases "finish a response2 ?st3")
    with al Inr have s: "snd (agent_loop env query tools messages st) = st4" by simp
    from finish_shape[OF fin] have c4: "calls st4 = calls ?st3"
      and h4: "heap st4 a = heap ?st3 a \<or> (\<exists>c. heap st4 a = heap ?st3 a @ [Assistant c])"
      by (auto split: sum.splits)
    from h4 show ?thesis
      using s c4 c3 h3 h2 by auto
  qed
qed

text \<open>The theorem at the example session, for a reply with one request.\<close>

theorem single_request_invokes_once_witness:
  "filter is_invoke (calls_since (start [Inr [asks [paris_call]], says ''It is 18C and cloudy.''])
      (snd (agent_loop example_env ''Weather in Paris?'' example_tools None
         (start [Inr [asks [paris_call]], says ''It is 18C and cloudy.'']))))
     = [Invoke ''get_weather'' [(''city'', JString ''Paris'')] (Inr ''18C, cloudy'')]
   \<and> filter is_tool_result
     (appended [System ''Tools:\<newline>- get_weather: Weather of a city\<newline>- get_time: None'']
        (heap (snd (agent_loop example_env ''Weather in Paris?'' example_tools None
           (start [Inr [asks [paris_call]], says ''It is 18C and cloudy.'']))) 0))
     = [Tool ''call_1'' ''get_weather'' (json_dumps ''18C, cloudy'')]"
proof -
  let ?init = "start [Inr [asks [paris_call]], says ''It is 18C and cloudy.'']"
  let ?seeded = "snd (seed example_env example_tools None ?init)"
  let ?q = "''Weather in Paris?''"
  have sd: "seed example_env example_tools None ?init = (Inr 0, ?seeded)"
    by (simp add: example_defs loop_defs)
  have ch: "chat_create example_env
      (first_request example_env example_tools (heap ?seeded 0 @ [User ?q])) (ext ?seeded)
      = (Inr [asks [paris_call]], [says ''It is 18C and cloudy.''])"
    by (simp add: example_defs loop_defs)
  have fr: "first [asks [paris_call]] = Inr (asks [paris_call])"
    by (simp add: first_def)
  have tc: "requested (asks [paris_call]) = [paris_call]"
    by (simp add: requested_def asks_def)
  have tl: "dict_get example_tools (tc_name paris_call) = Some weather_tool"
    by (simp add: dict_get_def example_tools_def paris_call_def)
  have ld: "json_loads example_env (tc_arguments paris_call)
      = Inr (JObject [(''city'', JString ''Paris'')])"
    by (simp add: example_env_def example_loads_def paris_call_def)
  have rs: "t_callable weather_tool [(''city'', JString ''Paris'')] [says ''It is 18C and cloudy.'']
      = (Inr ''18C, cloudy'', [says ''It is 18C and cloudy.''])"
    by (simp add: weather_tool_def)
  from single_request_invokes_once[OF sd ch fr tc tl ld rs] show ?thesis
    by (simp add: example_defs loop_defs)
qed

text \<open>
  Claim C3 as stated fails: the callable returns \<^verbatim>\<open>18C, cloudy\<close>, and the content of the
  tool-result message is that text between double quotes.
\<close>

theorem result_not_verbatim_counterexample:
  \<open>t_callable weather_tool [(''city'', JString ''Paris'')] [says ''It is 18C and cloudy.'']
     = (Inr ''18C, cloudy'', [says ''It is 18C and cloudy.''])
   \<and> filter is_tool_result
        (heap (snd (agent_loop example_env ''Weather in Paris?'' example_tools None
           (start [Inr [asks [paris_call]], says ''It is 18C and cloudy.'']))) 0)
     = [Tool ''call_1'' ''get_weather'' ''"18C, cloudy"'']
   \<and> ''"18C, cloudy"'' \<noteq> ''18C, cloudy''\<close>
  by (simp add: example_defs loop_defs)

lemma json_dumps_length: "length s + 2 \<le> length (json_dumps s)"
proof -
  have "length s \<le> length (concat (map escape_char s))"
    by (induction s) (auto simp: escape_char_def)
  then show ?thesis by (simp add: json_dumps_def)
qed

lemma json_dumps_not_verbatim: "json_dumps s \<noteq> s"
  using json_dumps_length[of s] by auto

text \<open>
  Claim C8. For an empty registry and a fresh history, the text put into the system
  prompt for the tools is empty, and the first chat-completion request of the turn
  carries the system message built from it, the user message, and no tool manifest.
\<close>

theorem empty_registry_request:
  assumes "SYSTEM_PROMPT_format env '''' = Inr p"
  shows "tools_text ([] :: (string, 's tool) dict) = ''''
     \<and> take 1 (calls_since st (snd (agent_loop env query [] None st)))
         = [ChatCreate
              \<lparr>req_model = MODEL env, req_messages = [System p, User query], req_tools = None,
               req_max_tokens = Some 4096, req_temperature = Some 0\<rparr>
              (fst (chat_create env
                 \<lparr>req_model = MODEL env, req_messages = [System p, User query], req_tools = None,
                  req_max_tokens = Some 4096, req_temperature = Some 0\<rparr> (ext (st :: 's machine))))]"
proof -
  let ?st0 = "st\<lparr>heap := (heap st)(next_addr st := [System p]), next_addr := Suc (next_addr st)\<rparr>"
  let ?req = "\<lparr>req_model = MODEL env, req_messages = [System p, User query], req_tools = None,
               req_max_tokens = Some 4096, req_temperature = Some 0\<rparr>"
  have sd: "seed env [] None st = (Inr (next_addr st), ?st0)"
    using assms by (simp add: seed_def fresh_history_def alloc_def tools_text_def dict_values_def)
  have rq: "first_request env [] (heap ?st0 (next_addr st) @ [User query]) = ?req"
    by (simp add: first_request_def)
  obtain r1 x where ch: "chat_create env ?req (ext st) = (r1, x)"
    by (cases "chat_create env ?req (ext st)")
  let ?st1 = "record_call (ChatCreate ?req r1) (extend_at (next_addr st) [User query] ?st0\<lparr>ext := x\<rparr>)"
  have c1: "calls ?st1 = calls st @ [ChatCreate ?req r1]"
    by (simp add: record_call_def extend_at_def)
  have "\<exists>evs. calls (snd (agent_loop env query [] None st)) = calls st @ ChatCreate ?req r1 # evs"
  proof (cases r1)
    case (Inl e)
    with ch rq have "snd (agent_loop env query [] None st) = ?st1"
      by (simp add: agent_loop_seeded[OF sd])
    with c1 show ?thesis by simp
  next
    case (Inr response)
    obtain rf st' where af: "after_first env [] (next_addr st) response ?st1 = (rf, st')"
      by (cases "after_first env [] (next_addr st) response ?st1")
    with Inr ch rq have "snd (agent_loop env query [] None st) = st'"
      by (simp add: agent_loop_seeded[OF sd])
    with after_first_calls[OF af] c1 show ?thesis by auto
  qed
  then obtain evs where
    "calls (snd (agent_loop env query [] None st)) = calls st @ ChatCreate ?req r1 # evs" ..
  then have "calls_since st (snd (agent_loop env query [] None st)) = ChatCreate ?req r1 # evs"
    by simp
  with ch show ?thesis by (simp add: tools_text_def dict_values_def)
qed

text \<open>The theorem at the example session.\<close>

theorem empty_registry_request_witness:
  "tools_text ([] :: (string, replies tool) dict) = ''''
   \<and> take 1 (calls_since (start [says ''Hi!''])
        (snd (agent_loop example_env ''hello'' [] None (start [says ''Hi!'']))))
     = [ChatCreate
          \<lparr>req_model = ''model'', req_messages = [System ''Tools:\<newline>- '', User ''hello''],
           req_tools = None, req_max_tokens = Some 4096, req_temperature = Some 0\<rparr>
          (says ''Hi!'')]"
proof -
  have p: "SYSTEM_PROMPT_format example_env '''' = Inr ''Tools:\<newline>- ''"
    by (simp add: example_env_def)
  from empty_registry_request[OF p, of "start [says ''Hi!'']" "''hello''"] show ?thesis
    by (simp add: example_defs)
qed

section \<open>What a turn appends\<close>

text \<open>
  In a turn that returns, the message of the first response is in the appended
  messages once for every request it carries.
\<close>

lemma count_assistant_tool_messages:
  "length (filter (\<lambda>m. m = ModelMessage msg) (tool_messages msg cs)) = length cs"
  by (induction cs) auto

lemma assistant_message_once_per_request:
  assumes sd: "seed env tools messages st = (Inr a, st0)"
    and ch: "chat_create env (first_request env tools (heap st0 a @ [User query])) (ext st0)
           = (Inr response, x)"
    and fr: "first response = Inr msg"
    and ok: "agent_loop env query tools messages st = (Inr res, st')"
  shows "length (filter (\<lambda>m. m = ModelMessage msg) (appended (heap st0 a) (heap st' a)))
           = length (requested msg)"
proof -
  let ?st1 = "record_call
      (ChatCreate (first_request env tools (heap st0 a @ [User query])) (Inr response))
      (extend_at a [User query] st0\<lparr>ext := x\<rparr>)"
  from ok have "after_first env tools a response ?st1 = (Inr res, st')"
    by (simp add: agent_loop_seeded[OF sd] ch)
  from after_first_ok[OF this fr] obtain cs c where
    m: "map fst cs = requested msg"
    and h: "heap st' a = heap ?st1 a @ tool_messages msg cs @ [Assistant c]"
    by blast
  have h1: "heap ?st1 a = heap st0 a @ [User query]"
    by (simp add: record_call_def extend_at_def)
  from m have len: "length cs = length (requested msg)" by (metis length_map)
  show ?thesis
    by (simp add: h h1 count_assistant_tool_messages len)
qed

text \<open>
  A turn only ever appends to its list; a turn that starts from a list of the caller
  and fails has at least put its user message there.
\<close>

lemma after_first_heap:
  assumes "after_first env tools a response st = (r, st')"
  shows "\<exists>new. heap st' a = heap st a @ new"
proof (cases "first response")
  case (Inl e)
  with assms show ?thesis by (auto simp: after_first_def)
next
  case (Inr msg)
  show ?thesis
  proof (cases "requested msg")
    case Nil
    with assms Inr have "finish a response st = (r, st')"
      by (auto simp: after_first_def requested_def split: option.splits list.splits)
    from finish_shape[OF this] show ?thesis
      by (cases r) auto
  next
    case (Cons tc tcs)
    then have tcs: "tool_calls msg = Some (tc # tcs)"
      by (auto simp: requested_def split: option.splits)
    obtain r1 st1 where run: "run_tool_calls env tools msg a (tc # tcs) st = (r1, st1)"
      by (cases "run_tool_calls env tools msg a (tc # tcs) st")
    from run_tool_calls_shape[OF run] obtain cs where
      h1: "heap st1 a = heap st a @ tool_messages msg cs"
      by auto
    show ?thesis
    proof (cases r1)
      case (Inl e)
      with assms Inr tcs run have "st' = st1" by (auto simp: after_first_def)
      with h1 show ?thesis by simp
    next
      case r1: (Inr u)
      obtain r2 x2 where ch2: "chat_create env (second_request env (heap st1 a)) (ext st1) = (r2, x2)"
        by (cases "chat_create env (second_request env (heap st1 a)) (ext st1)")
      let ?st2 = "record_call (ChatCreate (second_request env (heap st1 a)) r2) (st1\<lparr>ext := x2\<rparr>)"
      have h2: "heap ?st2 a = heap st1 a" by (simp add: record_call_def)
      show ?thesis
      proof (cases r2)
        case (Inl e)
        with assms Inr tcs run r1 ch2 have "st' = ?st2"
          by (auto simp: after_first_def create_def)
        with h1 h2 show ?thesis by simp
      next
        case (Inr response2)
        with assms \<open>first response = Inr msg\<close> tcs run r1 ch2
        have "finish a response2 ?st2 = (r, st')"
          by (auto simp: after_first_def create_def)
        from finish_shape[OF this] h1 h2 show ?thesis
          by (cases r) auto
      qed
    qed
  qed
qed

lemma failed_turn_keeps_user_message:
  assumes ne: "heap st a \<noteq> []"
    and fail: "agent_loop env query tools (Some a) st = (Inl e, st')"
  shows "\<exists>new. heap st' a = heap st a @ User query # new"
proof -
  from ne have sd: "seed env tools (Some a) st = (Inr a, st)" by (simp add: seed_def)
  let ?req = "first_request env tools (heap st a @ [User query])"
  obtain r1 x where ch: "chat_create env ?req (ext st) = (r1, x)"
    by (cases "chat_create env ?req (ext st)")
  let ?st1 = "record_call (ChatCreate ?req r1) (extend_at a [User query] st\<lparr>ext := x\<rparr>)"
  have h1: "heap ?st1 a = heap st a @ [User query]"
    by (simp add: record_call_def extend_at_def)
  show ?thesis
  proof (cases r1)
    case (Inl e1)
    with fail ch have "st' = ?st1" by (auto simp: agent_loop_seeded[OF sd])
    with h1 show ?thesis by simp
  next
    case (Inr response)
    with fail ch have "after_first env tools a response ?st1 = (Inl e, st')"
      by (simp add: agent_loop_seeded[OF sd])
    from after_first_heap[OF this] h1 show ?thesis by auto
  qed
qed

section \<open>Connecting a client\<close>

lemma connect_succeeds:
  assumes "stdio_aenter env (next_conn s) (params (clients s cid)) (world s) = (None, w1)"
    and "session_aenter env (next_conn s) w1 = (None, w2)"
    and "session_initialize env (next_conn s) w2 = (None, w3)"
  shows "connect env cid s = (Inr (), connected cid (next_conn s) w3 s)"
  using assms
  by (simp add: connect_def ext_call_def set_client_def connected_def Let_def)

lemma connect_Inr:
  assumes "connect env cid s = (Inr u, s')"
  shows "\<exists>w1 w2 w3.
      stdio_aenter env (next_conn s) (params (clients s cid)) (world s) = (None, w1)
    \<and> session_aenter env (next_conn s) w1 = (None, w2)
    \<and> session_initialize env (next_conn s) w2 = (None, w3)
    \<and> s' = connected cid (next_conn s) w3 s"
  using assms
  by (auto simp: connect_def ext_call_def set_client_def connected_def Let_def
      split: prod.splits option.splits)

text \<open>
  Claim C9, amended. \<^verbatim>\<open>connect\<close> has no guard against a second call. Called again on a
  client that is connected, with no disconnect in between, it succeeds whenever the
  transport and the handshake succeed again: it opens a new connection and puts the
  new transport and session in place of the earlier ones, which are not closed.
\<close>

theorem connect_again_succeeds:
  assumes first: "connect env cid s0 = (Inr (), s)"
    and e1: "stdio_aenter env (next_conn s) (params (clients s cid)) (world s) = (None, w1)"
    and e2: "session_aenter env (next_conn s) w1 = (None, w2)"
    and e3: "session_initialize env (next_conn s) w2 = (None, w3)"
  shows "fst (connect env cid s) = Inr ()
     \<and> session (clients s cid) = Some (next_conn s0)
     \<and> session (clients (snd (connect env cid s)) cid) = Some (Suc (next_conn s0))
     \<and> client_cm (clients (snd (connect env cid s)) cid) = Some (Suc (next_conn s0))
     \<and> mcp_trace (snd (connect env cid s))
         = mcp_trace s0 @
           [StdioEnter (next_conn s0), SessionEnter (next_conn s0), Initialize (next_conn s0),
            StdioEnter (Suc (next_conn s0)), SessionEnter (Suc (next_conn s0)),
            Initialize (Suc (next_conn s0))]"
proof -
  from connect_Inr[OF first] obtain w where s: "s = connected cid (next_conn s0) w s0"
    by blast
  have n: "next_conn s = Suc (next_conn s0)" by (simp add: s connected_def)
  from connect_succeeds[OF e1 e2 e3]
  have "connect env cid s = (Inr (), connected cid (next_conn s) w3 s)" .
  then show ?thesis
    by (simp add: n) (simp add: s connected_def)
qed

text \<open>The theorem at the example provider.\<close>

theorem connect_again_succeeds_witness:
  "fst (connect example_shell 0 (snd (connect example_shell 0 example_client))) = Inr ()
   \<and> session (clients (snd (connect example_shell 0 example_client)) 0) = Some 0
   \<and> session (clients (snd (connect example_shell 0
        (snd (connect example_shell 0 example_client)))) 0) = Some 1
   \<and> client_cm (clients (snd (connect example_shell 0
        (snd (connect example_shell 0 example_client)))) 0) = Some 1
   \<and> mcp_trace (snd (connect example_shell 0 (snd (connect example_shell 0 example_client))))
     = [StdioEnter 0, SessionEnter 0, Initialize 0, StdioEnter 1, SessionEnter 1, Initialize 1]"
proof -
  let ?once = "snd (connect example_shell 0 example_client)"
  have first: "connect example_shell 0 example_client = (Inr (), ?once)"
    by (simp add: shell_defs)
  have e1: "stdio_aenter example_shell (next_conn ?once) (params (clients ?once 0)) (world ?once)
      = (None, [])"
    by (simp add: shell_defs)
  have e2: "session_aenter example_shell (next_conn ?once) [] = (None, [])"
    by (simp add: shell_defs)
  have e3: "session_initialize example_shell (next_conn ?once) [] = (None, [])"
    by (simp add: shell_defs)
  from connect_again_succeeds[OF first e1 e2 e3] show ?thesis
    by (simp add: shell_defs)
qed

text \<open>Claim C9 as stated fails: both calls return normally.\<close>

theorem second_connect_counterexample:
  "fst (connect example_shell 0 example_client) = Inr ()
   \<and> fst (connect example_shell 0 (snd (connect example_shell 0 example_client))) = Inr ()"
  by (simp add: shell_defs)

text \<open>A client that has never been connected: listing its tools is refused.\<close>

lemma get_available_tools_unconnected:
  "session (clients s cid) = None \<Longrightarrow> get_available_tools env cid s = (Inl NotConnected, s)"
  by (simp add: get_available_tools_def)

section \<open>The calls to the MCP library in a run of \<^verbatim>\<open>main\<close>\<close>

lemma opened_after_append:
  "opened_after opened (evs1 @ evs2) = opened_after (opened_after opened evs1) evs2"
  by (induction opened evs1 rule: opened_after.induct) auto

lemma calls_in_scope_append:
  "calls_in_scope opened (evs1 @ evs2)
     = (calls_in_scope opened evs1 \<and> calls_in_scope (opened_after opened evs1) evs2)"
  by (induction opened evs1 rule: calls_in_scope.induct) auto

lemma calls_in_scope_quiet: "filter is_call_tool evs = [] \<Longrightarrow> calls_in_scope opened evs"
  by (induction opened evs rule: calls_in_scope.induct) auto

lemma calls_in_scope_none_open:
  assumes "list_all is_call_tool evs"
  shows "calls_in_scope [] evs = (evs = [])"
proof (cases evs)
  case Nil
  then show ?thesis by simp
next
  case (Cons ev evs')
  with assms show ?thesis by (cases ev) auto
qed

lemma filter_all_call_tool: "list_all is_call_tool evs \<Longrightarrow> filter is_call_tool evs = evs"
  by (induction evs) auto

lemma quiet_refl: "quiet s s"
  by (simp add: quiet_def)

lemma quiet_trans: "quiet s s' \<Longrightarrow> quiet s' s'' \<Longrightarrow> quiet s s''"
  by (auto simp: quiet_def)

lemma tool_calls_only_refl: "tool_calls_only s s"
  by (simp add: tool_calls_only_def)

lemma tool_calls_only_trans:
  "tool_calls_only s s' \<Longrightarrow> tool_calls_only s' s'' \<Longrightarrow> tool_calls_only s s''"
  by (auto simp: tool_calls_only_def)

lemma ext_call_trace:
  "ext_call ev f s = (r, s') \<Longrightarrow>
     mcp_trace s' = mcp_trace s @ [ev] \<and> clients s' = clients s"
  by (auto simp: ext_call_def split: prod.splits)

lemma connect_quiet: "connect env cid s = (r, s') \<Longrightarrow> quiet s s'"
  by (auto simp: connect_def ext_call_def set_client_def Let_def quiet_def
      split: prod.splits option.splits)

lemma get_available_tools_quiet:
  "get_available_tools env cid s = (r, s') \<Longrightarrow> quiet s s' \<and> clients s' = clients s"
  by (auto simp: get_available_tools_def ext_call_def quiet_def split: prod.splits option.splits)

lemma with_body_quiet:
  "with_body env cid tools s = (r, s') \<Longrightarrow> quiet s s' \<and> clients s' = clients s"
  by (auto simp: with_body_def split: prod.splits sum.splits tools_data.splits if_splits
      tuple_item.splits dest: get_available_tools_quiet)

lemma aexit_quiet: "aexit env cid s = (r, s') \<Longrightarrow> quiet s s'"
  by (auto simp: aexit_def ext_call_def quiet_def split: prod.splits option.splits)

lemma with_body_events:
  "with_body env cid tools s = (r, s') \<Longrightarrow>
     clients s' = clients s \<and>
     (mcp_trace s' = mcp_trace s \<or> (\<exists>c. mcp_trace s' = mcp_trace s @ [ListTools c]))"
  by (auto simp: with_body_def get_available_tools_def ext_call_def
      split: prod.splits sum.splits tools_data.splits if_splits tuple_item.splits option.splits)

lemma aexit_ok:
  assumes "session (clients s cid) = Some c" and "client_cm (clients s cid) = Some c"
    and "aexit env cid s = (Inr u, s')"
  shows "mcp_trace s' = mcp_trace s @ [SessionExit c, StdioExit c]"
  using assms
  by (auto simp: aexit_def ext_call_def split: prod.splits option.splits)

lemma registered_dict_set:
  "registered env tools \<Longrightarrow> \<exists>cid name. t_callable t = callable env cid name \<Longrightarrow>
     registered env (dict_set tools k t)"
  by (induction tools k t rule: dict_set.induct) (auto simp: registered_def)

lemma register_tools_registered:
  "register_tools env cid ts tools s = Inr tools' \<Longrightarrow> registered env tools \<Longrightarrow>
     registered env tools'"
proof (induction ts arbitrary: tools)
  case Nil
  then show ?case by simp
next
  case (Cons t ts)
  from Cons.prems(1) obtain f where
    f: "call_tool env cid (ti_name t) s = Inr f"
    and rest: "register_tools env cid ts
      (dict_set tools (ti_name t)
         \<lparr>t_name = ti_name t, t_callable = f,
          t_schema = \<lparr>schema_type = ''function'',
            schema_function = \<lparr>fn_name = ti_name t, fn_description = ti_description t,
                               fn_parameters = ti_inputSchema t\<rparr>\<rparr>\<rparr>) s = Inr tools'"
    by (auto split: sum.splits)
  from f have "f = callable env cid (ti_name t)"
    by (auto simp: call_tool_def split: option.splits)
  then have "registered env (dict_set tools (ti_name t)
         \<lparr>t_name = ti_name t, t_callable = f,
          t_schema = \<lparr>schema_type = ''function'',
            schema_function = \<lparr>fn_name = ti_name t, fn_description = ti_description t,
                               fn_parameters = ti_inputSchema t\<rparr>\<rparr>\<rparr>)"
    using Cons.prems(2) by (intro registered_dict_set) auto
  with Cons.IH[OF rest] show ?case .
qed

lemma with_body_registered:
  "with_body env cid tools s = (Inr tools', s') \<Longrightarrow> registered env tools \<Longrightarrow>
     registered env tools'"
  by (auto simp: with_body_def split: prod.splits sum.splits tools_data.splits if_splits
      tuple_item.splits dest: register_tools_registered)

lemma setup_servers_trace:
  "setup_servers env servers tools s = (r, s') \<Longrightarrow>
     \<exists>evs. mcp_trace s' = mcp_trace s @ evs \<and> filter is_call_tool evs = [] \<and>
       (case r of Inl e \<Rightarrow> True
        | Inr tools' \<Rightarrow> opened_after [] evs = [] \<and>
            (registered env tools \<longrightarrow> registered env tools'))"
proof (induction servers arbitrary: tools s)
  case Nil
  then show ?case by (intro exI[of _ "[]"]) auto
next
  case (Cons server servers)
  let ?p = "\<lparr>command = srv_command server, args = srv_args server, env_vars = srv_env server\<rparr>"
  obtain cid s1 where nc: "new_client ?p s = (cid, s1)"
    by (cases "new_client ?p s")
  then have t1: "mcp_trace s1 = mcp_trace s" by (auto simp: new_client_def)
  obtain r2 s2 where ae: "aenter env cid s1 = (r2, s2)" by (cases "aenter env cid s1")
  then have co: "connect env cid s1 = (r2, s2)" by (simp add: aenter_def)
  have stop: ?case if "r = Inl e" and "quiet s1 s'" for e
    using that t1 by (auto simp: quiet_def)
  show ?case
  proof (cases r2)
    case (Inl e)
    with Cons.prems nc ae have "r = Inl e" "s' = s2" by auto
    with connect_quiet[OF co] show ?thesis by (intro stop) auto
  next
    case (Inr u)
    with connect_Inr co obtain w where s2: "s2 = connected cid (next_conn s1) w s1"
      by blast
    let ?c = "next_conn s1"
    have t2: "mcp_trace s2 = mcp_trace s1 @ [StdioEnter ?c, SessionEnter ?c, Initialize ?c]"
      and ses: "session (clients s2 cid) = Some ?c"
      and cm: "client_cm (clients s2 cid) = Some ?c"
      by (simp_all add: s2 connected_def)
    obtain r3 s3 where wb: "with_body env cid tools s2 = (r3, s3)"
      by (cases "with_body env cid tools s2")
    note b = with_body_events[OF wb]
    obtain r4 s4 where ax: "aexit env cid s3 = (r4, s4)" by (cases "aexit env cid s3")
    have q4: "quiet s1 s4"
      using connect_quiet[OF co] with_body_quiet[OF wb] aexit_quiet[OF ax]
      by (blast intro: quiet_trans)
    show ?thesis
    proof (cases r3)
      case (Inl e)
      with Cons.prems nc ae Inr wb ax obtain e' where "r = Inl e'" "s' = s4"
        by (cases r4) auto
      with q4 show ?thesis by (intro stop) auto
    next
      case r3: (Inr tools')
      show ?thesis
      proof (cases r4)
        case (Inl e)
        with Cons.prems nc ae Inr wb ax r3 have "r = Inl e" "s' = s4" by auto
        with q4 show ?thesis by (intro stop) auto
      next
        case r4: (Inr u')
        with Cons.prems nc ae Inr wb ax r3
        have rest: "setup_servers env servers tools' s4 = (r, s')" by auto
        from b ses cm have "session (clients s3 cid) = Some ?c" "client_cm (clients s3 cid) = Some ?c"
          by simp_all
        from aexit_ok[OF this] ax r4
        have t4: "mcp_trace s4 = mcp_trace s3 @ [SessionExit ?c, StdioExit ?c]" by simp
        from Cons.IH[OF rest] obtain evs where
          t': "mcp_trace s' = mcp_trace s4 @ evs" and q: "filter is_call_tool evs = []"
          and o: "(case r of Inl e \<Rightarrow> True
            | Inr tools'' \<Rightarrow> opened_after [] evs = [] \<and>
                (registered env tools' \<longrightarrow> registered env tools''))"
          by blast
        have reg: "registered env tools \<Longrightarrow> registered env tools'"
          using wb r3 by (auto dest: with_body_registered)
        from b consider (same) "mcp_trace s3 = mcp_trace s2"
          | (listed) c' where "mcp_trace s3 = mcp_trace s2 @ [ListTools c']"
          by auto
        then show ?thesis
        proof cases
          case same
          with t1 t2 t4 t' q o reg show ?thesis
            by (intro exI[of _ "[StdioEnter ?c, SessionEnter ?c, Initialize ?c,
                  SessionExit ?c, StdioExit ?c] @ evs"])
               (auto simp: opened_after_append split: sum.splits)
        next
          case listed
          with t1 t2 t4 t' q o reg show ?thesis
            by (intro exI[of _ "[StdioEnter ?c, SessionEnter ?c, Initialize ?c, ListTools c',
                  SessionExit ?c, StdioExit ?c] @ evs"])
               (auto simp: opened_after_append split: sum.splits)
        qed
      qed
    qed
  qed
qed

lemma callable_trace: "callable env cid n kw s = (r, s') \<Longrightarrow> tool_calls_only s s'"
  by (auto simp: callable_def ext_call_def tool_calls_only_def first_def
      split: prod.splits option.splits sum.splits list.splits content_item.splits)

lemma chat_trace: "chat_create (loop_env env) req s = (r, s') \<Longrightarrow> tool_calls_only s s'"
  by (auto simp: loop_env_def tool_calls_only_def split: prod.splits)

lemma registered_lookup:
  assumes "registered env tools" and "dict_get tools n = Some t"
  shows "\<exists>cid name. t_callable t = callable env cid name"
proof -
  from assms(2) have "(n, t) \<in> set tools"
    by (auto simp: dict_get_def dest: map_of_SomeD)
  with assms(1) show ?thesis
    by (auto simp: registered_def list_all_iff)
qed

lemma run_tool_calls_trace:
  "registered env tools \<Longrightarrow>
   run_tool_calls (loop_env env) tools msg a tcs st = (r, st') \<Longrightarrow>
   tool_calls_only (ext st) (ext st')"
proof (induction tcs arbitrary: st)
  case Nil
  then show ?case by (simp add: tool_calls_only_refl)
next
  case (Cons tc tcs)
  show ?case
  proof (cases "\<exists>arguments t kw. json_loads (loop_env env) (tc_arguments tc) = Inr arguments
      \<and> dict_get tools (tc_name tc) = Some t \<and> as_kwargs arguments = Inr kw")
    case False
    with Cons.prems(2) have "st' = st"
      by (auto split: sum.splits option.splits)
    then show ?thesis by (simp add: tool_calls_only_refl)
  next
    case True
    then obtain arguments t kw where
      ld: "json_loads (loop_env env) (tc_arguments tc) = Inr arguments"
      and tl: "dict_get tools (tc_name tc) = Some t"
      and kw: "as_kwargs arguments = Inr kw"
      by blast
    obtain res x where call: "t_callable t kw (ext st) = (res, x)"
      by (cases "t_callable t kw (ext st)")
    from registered_lookup[OF Cons.prems(1) tl] call have step: "tool_calls_only (ext st) x"
      by (auto dest: callable_trace)
    show ?thesis
    proof (cases res)
      case (Inl e)
      with Cons.prems(2) ld tl kw call have "ext st' = x"
        by (auto simp: record_call_def)
      with step show ?thesis by simp
    next
      case (Inr out)
      let ?st1 = "extend_at a [ModelMessage msg, Tool (tc_id tc) (tc_name tc) (json_dumps out)]
                    (record_call (Invoke (tc_name tc) kw (Inr out)) (st\<lparr>ext := x\<rparr>))"
      from Inr Cons.prems(2) ld tl kw call
      have "run_tool_calls (loop_env env) tools msg a tcs ?st1 = (r, st')" by simp
      from Cons.IH[OF Cons.prems(1) this] have "tool_calls_only x (ext st')"
        by (simp add: extend_at_def record_call_def)
      with step show ?thesis by (rule tool_calls_only_trans)
    qed
  qed
qed

lemma create_trace:
  "create (loop_env env) req st = (r, st') \<Longrightarrow> tool_calls_only (ext st) (ext st')"
  by (auto simp: create_def record_call_def split: prod.splits dest: chat_trace)

lemma finish_ext: "finish a response st = (r, st') \<Longrightarrow> ext st' = ext st"
  by (auto simp: finish_def extend_at_def split: sum.splits)

lemma after_first_trace:
  assumes reg: "registered env tools"
    and run: "after_first (loop_env env) tools a response st = (r, st')"
  shows "tool_calls_only (ext st) (ext st')"
proof (cases "first response")
  case (Inl e)
  with run show ?thesis by (auto simp: after_first_def tool_calls_only_refl)
next
  case (Inr msg)
  show ?thesis
  proof (cases "requested msg")
    case Nil
    with run Inr have "finish a response st = (r, st')"
      by (auto simp: after_first_def requested_def split: option.splits list.splits)
    from finish_ext[OF this] show ?thesis by (simp add: tool_calls_only_refl)
  next
    case (Cons tc tcs)
    then have tcs: "tool_calls msg = Some (tc # tcs)"
      by (auto simp: requested_def split: option.splits)
    obtain r1 st1 where rt: "run_tool_calls (loop_env env) tools msg a (tc # tcs) st = (r1, st1)"
      by (cases "run_tool_calls (loop_env env) tools msg a (tc # tcs) st")
    note t1 = run_tool_calls_trace[OF reg rt]
    show ?thesis
    proof (cases r1)
      case (Inl e)
      with run Inr tcs rt have "st' = st1" by (auto simp: after_first_def)
      with t1 show ?thesis by simp
    next
      case r1: (Inr u)
      obtain r2 st2 where cr:
        "create (loop_env env) (second_request (loop_env env) (heap st1 a)) st1 = (r2, st2)"
        by (cases "create (loop_env env) (second_request (loop_env env) (heap st1 a)) st1")
      note t2 = create_trace[OF cr]
      have "ext st' = ext st2"
      proof (cases r2)
        case (Inl e)
        with run Inr tcs rt r1 cr show ?thesis by (auto simp: after_first_def)
      next
        case (Inr response2)
        with run \<open>first response = Inr msg\<close> tcs rt r1 cr
        have "finish a response2 st2 = (r, st')" by (auto simp: after_first_def)
        then show ?thesis by (rule finish_ext)
      qed
      with t1 t2 show ?thesis by (auto intro: tool_calls_only_trans)
    qed
  qed
qed

lemma agent_loop_trace:
  assumes reg: "registered env tools"
    and run: "agent_loop (loop_env env) query tools messages st = (r, st')"
  shows "tool_calls_only (ext st) (ext st')"
proof -
  obtain r0 st0 where sd: "seed (loop_env env) tools messages st = (r0, st0)"
    by (cases "seed (loop_env env) tools messages st")
  from seed_frame[OF sd] have e0: "ext st0 = ext st" by simp
  show ?thesis
  proof (cases r0)
    case (Inl e)
    with run sd have "st' = st0" by (simp add: agent_loop_def)
    with e0 show ?thesis by (simp add: tool_calls_only_refl)
  next
    case (Inr a)
    let ?st1 = "extend_at a [User query] st0"
    obtain r1 st2 where cr:
      "create (loop_env env) (first_request (loop_env env) tools (heap ?st1 a)) ?st1 = (r1, st2)"
      by (cases "create (loop_env env) (first_request (loop_env env) tools (heap ?st1 a)) ?st1")
    from create_trace[OF cr] e0 have t2: "tool_calls_only (ext st) (ext st2)"
      by (simp add: extend_at_def)
    show ?thesis
    proof (cases r1)
      case (Inl e)
      with run sd Inr cr have "st' = st2" by (simp add: agent_loop_def Let_def)
      with t2 show ?thesis by simp
    next
      case r1: (Inr response)
      with run sd Inr cr have "after_first (loop_env env) tools a response st2 = (r, st')"
        by (simp add: agent_loop_def Let_def)
      from after_first_trace[OF reg this] t2 show ?thesis
        by (auto intro: tool_calls_only_trans)
    qed
  qed
qed

lemma prompt_loop_trace:
  "registered env tools \<Longrightarrow>
   prompt_loop (loop_env env) tools inputs messages st = (m, st') \<Longrightarrow>
   tool_calls_only (ext st) (ext st')"
proof (induction inputs arbitrary: messages st)
  case Nil
  then show ?case by (simp add: tool_calls_only_refl)
next
  case (Cons i inputs)
  show ?case
  proof (cases i)
    case KeyboardInterrupt
    with Cons.prems show ?thesis by (simp add: tool_calls_only_refl)
  next
    case (Line user_input)
    show ?thesis
    proof (cases "is_quit user_input")
      case True
      with Cons.prems Line show ?thesis by (simp add: tool_calls_only_refl)
    next
      case False
      obtain r1 st1 where al: "agent_loop (loop_env env) user_input tools messages st = (r1, st1)"
        by (cases "agent_loop (loop_env env) user_input tools messages st")
      note t1 = agent_loop_trace[OF Cons.prems(1) al]
      from Cons.prems(2) Line False al obtain m1 where
        "prompt_loop (loop_env env) tools inputs m1 st1 = (m, st')"
        by (cases r1) (auto split: prod.splits)
      from Cons.IH[OF Cons.prems(1) this] t1 show ?thesis
        by (auto intro: tool_calls_only_trans)
    qed
  qed
qed

text \<open>
  In every run of \<^verbatim>\<open>main\<close> the set-up leaves no session open and makes no tool call, and
  the prompt loop makes nothing but tool calls: the calls respect the sessions' scopes
  only in a run that calls no tool at all.
\<close>

lemma no_tool_call_in_scope:
  "calls_in_scope [] (mcp_trace (ext (snd (main env inputs (start (no_clients w))))))
     = (filter is_call_tool (mcp_trace (ext (snd (main env inputs (start (no_clients w)))))) = [])"
proof -
  let ?s = "no_clients w"
  obtain r s1 where su: "setup_servers env (cfg_mcp_servers env) [] ?s = (r, s1)"
    by (cases "setup_servers env (cfg_mcp_servers env) [] ?s")
  from setup_servers_trace[OF su] obtain evs where
    t1: "mcp_trace s1 = evs" and q: "filter is_call_tool evs = []"
    and o: "(case r of Inl e \<Rightarrow> True
        | Inr tools' \<Rightarrow> opened_after [] evs = [] \<and>
            (registered env [] \<longrightarrow> registered env tools'))"
    by (auto simp: no_clients_def)
  have e: "ext (start ?s) = ?s" by (simp add: start_def)
  show ?thesis
  proof (cases r)
    case (Inl e')
    with su e have "ext (snd (main env inputs (start ?s))) = s1"
      by (simp add: main_def)
    with t1 q show ?thesis by (simp add: calls_in_scope_quiet)
  next
    case (Inr tools)
    with o have op: "opened_after [] evs = []" and reg: "registered env tools"
      by (simp_all add: registered_def)
    obtain m st' where pl:
      "prompt_loop (loop_env env) tools inputs None (start ?s\<lparr>ext := s1\<rparr>) = (m, st')"
      by (cases "prompt_loop (loop_env env) tools inputs None (start ?s\<lparr>ext := s1\<rparr>)")
    from prompt_loop_trace[OF reg pl] t1 obtain evs2 where
      t2: "mcp_trace (ext st') = evs @ evs2" and a: "list_all is_call_tool evs2"
      by (auto simp: tool_calls_only_def)
    from su Inr e pl have "snd (main env inputs (start ?s)) = st'"
      by (simp add: main_def)
    with t2 q a op show ?thesis
      by (simp add: calls_in_scope_append calls_in_scope_quiet calls_in_scope_none_open
          filter_all_call_tool)
  qed
qed

section \<open>Where the program departs from its specification\<close>

text \<open>
  Claim C1. The specification has the assistant message appended once. The loop appends
  it with every tool result: for a reply with two requests the history holds it twice.
\<close>

theorem assistant_message_duplicated:
  "heap (snd (agent_loop example_env ''Weather in Paris and London?'' example_tools None
      (start [Inr [asks [paris_call, london_call]], says ''Both 18C and cloudy.'']))) 0
   = [System ''Tools:\<newline>- get_weather: Weather of a city\<newline>- get_time: None'',
      User ''Weather in Paris and London?'',
      ModelMessage (asks [paris_call, london_call]),
      Tool ''call_1'' ''get_weather'' (json_dumps ''18C, cloudy''),
      ModelMessage (asks [paris_call, london_call]),
      Tool ''call_2'' ''get_weather'' (json_dumps ''18C, cloudy''),
      Assistant (Some ''Both 18C and cloudy.'')]"
  by (simp add: example_defs loop_defs)

text \<open>
  Claim C4. The specification has a failed turn leave the history as it was. From the
  second turn on the loop works on the caller's own list: after a first turn that
  went well, a turn whose second tool call fails leaves its user message and the
  messages of the first tool call in the list the next turn starts from.
\<close>

theorem failed_turn_leaves_messages:
  "prompt_loop example_env example_tools [Line ''hello''] None
      (start [says ''Hi!'', Inr [asks [paris_call, time_call]]])
     = (Some 0, snd (prompt_loop example_env example_tools [Line ''hello''] None
          (start [says ''Hi!'', Inr [asks [paris_call, time_call]]])))
   \<and> heap (snd (prompt_loop example_env example_tools [Line ''hello''] None
          (start [says ''Hi!'', Inr [asks [paris_call, time_call]]]))) 0
     = [System ''Tools:\<newline>- get_weather: Weather of a city\<newline>- get_time: None'',
        User ''hello'', Assistant (Some ''Hi!'')]
   \<and> fst (agent_loop example_env ''Weather and time?'' example_tools (Some 0)
        (snd (prompt_loop example_env example_tools [Line ''hello''] None
          (start [says ''Hi!'', Inr [asks [paris_call, time_call]]]))))
     = Inl (External ''provider error'')
   \<and> fst (prompt_loop example_env example_tools [Line ''hello'', Line ''Weather and time?''] None
        (start [says ''Hi!'', Inr [asks [paris_call, time_call]]])) = Some 0
   \<and> heap (snd (prompt_loop example_env example_tools
          [Line ''hello'', Line ''Weather and time?''] None
          (start [says ''Hi!'', Inr [asks [paris_call, time_call]]]))) 0
     = [System ''Tools:\<newline>- get_weather: Weather of a city\<newline>- get_time: None'',
        User ''hello'', Assistant (Some ''Hi!''),
        User ''Weather and time?'',
        ModelMessage (asks [paris_call, time_call]),
        Tool ''call_1'' ''get_weather'' (json_dumps ''18C, cloudy'')]"
  by (simp add: example_defs loop_defs is_quit_def lower_char_def prod_eq_iff)

text \<open>
  Claim C10. The specification refuses \<^verbatim>\<open>listTools\<close> with NotConnected until \<^verbatim>\<open>connect\<close>
  has succeeded. \<^verbatim>\<open>connect\<close> stores the session before the handshake, and
  \<^verbatim>\<open>get_available_tools\<close> only looks whether a session is stored: after a \<^verbatim>\<open>connect\<close>
  that failed in the handshake it asks the session for its tools.
\<close>

theorem list_tools_after_failed_connect:
  "fst (connect no_handshake_shell 0 example_client) = Inl (External ''handshake failed'')
   \<and> session (clients (snd (connect no_handshake_shell 0 example_client)) 0) = Some 0
   \<and> fst (get_available_tools no_handshake_shell 0
          (snd (connect no_handshake_shell 0 example_client)))
     = Inr (TupleData [NoneItem,
         ToolList [\<lparr>ti_name = ''get_weather'', ti_description = Some ''Weather of a city'',
                    ti_inputSchema = JObject []\<rparr>]])
   \<and> mcp_trace (snd (get_available_tools no_handshake_shell 0
          (snd (connect no_handshake_shell 0 example_client))))
     = [StdioEnter 0, SessionEnter 0, Initialize 0, ListTools 0]"
  by (simp add: shell_defs)

text \<open>
  Claim C2. The specification has a registered callable called only while its client's
  connection is open. \<^verbatim>\<open>main\<close> leaves each client's \<^verbatim>\<open>async with\<close> before the prompt
  loop starts: in the example session the tool is called on session 0 after that
  session and its transport have been exited.
\<close>

theorem tool_called_after_scope_exit:
  "mcp_trace (ext (snd (main example_shell [Line ''Weather in Paris?'']
      (start (no_clients [Inr [asks [paris_call]], says ''It is 18C and cloudy.''])))))
     = [StdioEnter 0, SessionEnter 0, Initialize 0, ListTools 0, SessionExit 0, StdioExit 0,
        CallTool 0 ''get_weather'' [(''city'', JString ''Paris'')]]
   \<and> \<not> calls_in_scope []
        (mcp_trace (ext (snd (main example_shell [Line ''Weather in Paris?'']
           (start (no_clients [Inr [asks [paris_call]], says ''It is 18C and cloudy.'']))))))"
  by (simp add: shell_defs example_defs loop_defs is_quit_def lower_char_def)

end
